theory Spec2Isabelle
  imports Complex_Main
begin

section \<open>Data of \<open>pb_monitor.c\<close>\<close>

text \<open>
  The push-button monitor keeps three pieces of mutable state: the global mode \<open>state\<close>,
  the global command buffer \<open>str_sys_call_check_factory_reset\<close>, and the press start
  time \<open>timer_start\<close> (a local of \<open>main\<close> that lives for the whole run). Everything the
  program does to its environment (\<open>system\<close>, \<open>printf\<close>, \<open>perror\<close>, the marker file,
  the timer) is recorded, in program order, in the list \<open>out\<close>.
\<close>

datatype led_state = LED_OFF | LED_GREEN | LED_RED | LED_FLASH_GREEN | LED_FLASH_RED

datatype pb_state = PB_STATE_START | PB_STATE_INUSE

definition TIMER1_EXPIRE :: int where
  "TIMER1_EXPIRE = 10"

definition TIMER1_INTERVAL :: int where
  "TIMER1_INTERVAL = 2"

definition FACTORY_RESET_FILE :: string where
  "FACTORY_RESET_FILE = ''/opt/monitors/fc-set''"

text \<open>\<open>struct timespec\<close>: both fields are signed integers.\<close>

record timespec =
  tv_sec :: int
  tv_nsec :: int

text \<open>
  Requests to the environment. \<open>Printf\<close> carries the format string (without its trailing
  newline) and its integer arguments; \<open>Fopen_w_fclose\<close> is the pair
  \<open>fopen(path, "w"); fclose\<close> that creates the marker file (the program passes the
  result of \<open>fopen\<close> to \<open>fclose\<close> without a test); \<open>Timer_settime v i\<close> is
  \<open>timer_settime\<close> with \<open>it_value.tv_sec = v\<close> and \<open>it_interval.tv_sec = i\<close>.
\<close>

datatype effect =
    System string
  | Printf string "int list"
  | Perror string
  | Fopen_w_fclose string
  | Remove string
  | Timer_settime int int

record prog =
  state :: pb_state
  str_sys_call_check_factory_reset :: string
  timer_start :: timespec
  out :: "effect list"

subsection \<open>Global strings\<close>

definition str_sys_call_i2c_reset :: string where
  "str_sys_call_i2c_reset = ''i2cset -f -y 0 0x20 0 0''"

definition str_sys_call_opt_dir :: string where
  "str_sys_call_opt_dir = ''mkdir -p /opt/monitors/''"

text \<open>The initial contents of the buffer \<open>str_sys_call_check_factory_reset\<close>.\<close>

definition check_factory_reset_init :: string where
  "check_factory_reset_init = ''/usr/local/bin/check-factory-reset.sh ''"

definition str_sys_call_reboot :: string where
  "str_sys_call_reboot = ''reboot''"

definition str_sys_call_shutdown :: string where
  "str_sys_call_shutdown = ''shutdown -h now''"

fun str_sys_call_led :: "led_state \<Rightarrow> string" where
  "str_sys_call_led LED_OFF = ''./set_led.sh 0''"
| "str_sys_call_led LED_GREEN = ''./set_led.sh 1''"
| "str_sys_call_led LED_RED = ''./set_led.sh 2''"
| "str_sys_call_led LED_FLASH_GREEN = ''./set_led.sh 3''"
| "str_sys_call_led LED_FLASH_RED = ''./set_led.sh 4''"

text \<open>The globals as the loader initialises them; nothing has been output yet.\<close>

definition init_prog :: prog where
  "init_prog =
     \<lparr>state = PB_STATE_START,
      str_sys_call_check_factory_reset = check_factory_reset_init,
      timer_start = \<lparr>tv_sec = 0, tv_nsec = 0\<rparr>,
      out = []\<rparr>"

subsection \<open>Library calls\<close>

definition emit :: "effect \<Rightarrow> prog \<Rightarrow> prog" where
  "emit e s = s\<lparr>out := out s @ [e]\<rparr>"

text \<open>
  \<open>strcat(str_sys_call_check_factory_reset, flag)\<close>. The field holds the characters up
  to the terminator, which is what \<open>system\<close> is given. The C array is declared without a
  size, so it is exactly as large as its initialiser with the terminator
  (\<open>check_factory_reset_size\<close>), and \<open>strcat\<close> does not test for room:
  \<open>strcat_past_end\<close> is the number of bytes it writes beyond the array. What these bytes
  overwrite depends on the layout of the globals in memory and is not part of this model.
\<close>

definition strcat_check_factory_reset :: "string \<Rightarrow> prog \<Rightarrow> prog" where
  "strcat_check_factory_reset flag s =
     s\<lparr>str_sys_call_check_factory_reset := str_sys_call_check_factory_reset s @ flag\<rparr>"

definition check_factory_reset_size :: nat where
  "check_factory_reset_size = length check_factory_reset_init + 1"

definition strcat_past_end :: "string \<Rightarrow> prog \<Rightarrow> nat" where
  "strcat_past_end flag s =
     length (str_sys_call_check_factory_reset s) + length flag + 1 - check_factory_reset_size"

section \<open>The functions of \<open>pb_monitor.c\<close>\<close>

definition pb_initialise :: "prog \<Rightarrow> prog" where
  "pb_initialise s =
     (let s = emit (System str_sys_call_i2c_reset) s;
          s = emit (System str_sys_call_opt_dir) s
      in s)"

definition timer_handler :: "int \<Rightarrow> prog \<Rightarrow> prog" where
  "timer_handler sig s =
     (if state s = PB_STATE_START then
        (let s = emit (Printf ''Signal %d - Changes pb mode to in-use'' [sig]) s;
             s = s\<lparr>state := PB_STATE_INUSE\<rparr>;
             s = emit (System (str_sys_call_led LED_FLASH_GREEN)) s;
             s = strcat_check_factory_reset ''0'' s;
             s = emit (System (str_sys_call_check_factory_reset s)) s
         in s)
      else s)"

text \<open>
  \<open>make_timer\<close> depends on three system calls. Their outcome is an input of the model.
\<close>

datatype timer_env =
    Sigaction_fails
  | Timer_create_fails
  | Timer_settime_fails int
  | Timer_ok

definition make_timer :: "timer_env \<Rightarrow> int \<Rightarrow> int \<Rightarrow> prog \<Rightarrow> int \<times> prog" where
  "make_timer env expireS intervalS s =
     (case env of
        Sigaction_fails \<Rightarrow>
          (- 1, emit (Printf ''Failed to setup signal handler'' []) (emit (Perror ''sigaction'') s))
      | Timer_create_fails \<Rightarrow>
          (- 1, emit (Printf ''Failed to create timer'' []) (emit (Perror ''timer_create'') s))
      | Timer_settime_fails errno \<Rightarrow>
          (0, emit (Printf ''timer_settime failed:%d -(%s)'' [errno]) (emit (Perror ''timer_start'') s))
      | Timer_ok \<Rightarrow> (0, emit (Timer_settime expireS intervalS) s))"

definition timespec_diff :: "timespec \<Rightarrow> timespec \<Rightarrow> timespec" where
  "timespec_diff start stop =
     (if tv_nsec stop - tv_nsec start < 0 then
        \<lparr>tv_sec = tv_sec stop - tv_sec start - 1,
         tv_nsec = tv_nsec stop - tv_nsec start + 1000000000\<rparr>
      else
        \<lparr>tv_sec = tv_sec stop - tv_sec start,
         tv_nsec = tv_nsec stop - tv_nsec start\<rparr>)"

text \<open>
  \<open>test_time\<close> reads the clock only when a start time is set. The clock reading is an
  input: \<open>None\<close> is \<open>clock_gettime\<close> returning \<open>-1\<close>, \<open>Some stop\<close> the time it stores.
  The \<open>double\<close> result is modelled as an exact rational number.
\<close>

definition test_time :: "timespec \<Rightarrow> timespec option \<Rightarrow> prog \<Rightarrow> rat \<times> prog" where
  "test_time start clk s =
     (if tv_sec start > 0 \<or> tv_nsec start > 0 then
        (case clk of
           None \<Rightarrow> (0, emit (Perror ''clock gettime'') s)
         | Some stop \<Rightarrow>
             (let duration = timespec_diff start stop
              in (of_int (tv_sec duration) + of_int (tv_nsec duration) / 1000000000, s)))
      else (0, s))"

text \<open>
  The cast \<open>(unsigned long)total_time\<close> drops the fractional part. C defines it only when
  the integral part is representable, so a value of \<open>-1\<close> or below has no result. There
  is no upper limit here: the integral part is at most a \<open>tv_sec\<close> difference, which is
  a \<open>long\<close>, and every non-negative \<open>long\<close> is an \<open>unsigned long\<close>.
\<close>

definition ulong_of_double :: "rat \<Rightarrow> nat option" where
  "ulong_of_double x =
     (if x \<le> - 1 then None else if x < 0 then Some 0 else Some (nat \<lfloor>x\<rfloor>))"

definition process_time :: "nat \<Rightarrow> prog \<Rightarrow> prog" where
  "process_time seconds s =
     (if state s = PB_STATE_INUSE then
        (if seconds \<ge> 15 then emit (System (str_sys_call_led LED_FLASH_GREEN)) s
         else if seconds \<ge> 10 then emit (System (str_sys_call_led LED_FLASH_RED)) s
         else if seconds \<ge> 5 then emit (System (str_sys_call_led LED_RED)) s
         else s)
      else s)"

definition process_end_time :: "nat \<Rightarrow> prog \<Rightarrow> prog" where
  "process_end_time seconds s =
     (if seconds \<ge> 15 then
        emit (Printf ''Long Push-Button Press (15+sec) - cancelled'' []) s
      else if seconds \<ge> 10 then
        (let s = emit (Printf ''Long Push-Button Press (10+sec) - shutdown'' []) s;
             s = emit (System str_sys_call_shutdown) s
         in s)
      else if seconds \<ge> 5 then
        (let s = emit (Printf ''Long Push-Button Press (5+sec) - Enter factory reset on next reboot'' []) s;
             s = emit (Fopen_w_fclose FACTORY_RESET_FILE) s
         in s)
      else if state s = PB_STATE_INUSE then
        (let s = emit (Printf ''Short Push-ButtonPress (less 5sec ) - reboot'' []) s;
             s = emit (System str_sys_call_reboot) s
         in s)
      else
        (let s = emit (Printf ''Factory Reset'' []) s;
             s = strcat_check_factory_reset ''1'' s;
             s = emit (System (str_sys_call_check_factory_reset s)) s;
             s = s\<lparr>state := PB_STATE_INUSE\<rparr>;
             s = emit (System (str_sys_call_led LED_FLASH_GREEN)) s
         in s))"

text \<open>
  The outcome of \<open>stat(FACTORY_RESET_FILE, &sts)\<close>: success, or \<open>-1\<close> with an \<open>errno\<close>.
\<close>

datatype stat_result = Stat_success | Stat_failure int

definition ENOENT :: int where
  "ENOENT = 2"

text \<open>The first component of the result is the value stored through \<open>time_start\<close>.\<close>

definition check_inuse_factory_reset :: "stat_result \<Rightarrow> prog \<Rightarrow> int \<times> prog" where
  "check_inuse_factory_reset st s =
     (if st = Stat_failure ENOENT then
        (let s = emit (System (str_sys_call_led LED_RED)) s
         in (TIMER1_EXPIRE, s))
      else
        (let s = emit (Remove FACTORY_RESET_FILE) s;
             s = strcat_check_factory_reset ''1'' s;
             s = emit (System (str_sys_call_check_factory_reset s)) s;
             s = s\<lparr>state := PB_STATE_INUSE\<rparr>;
             s = emit (System (str_sys_call_led LED_FLASH_GREEN)) s
         in (TIMER1_INTERVAL, s)))"

section \<open>The main function\<close>

text \<open>
  \<open>struct input_event\<close> without its time stamp, which the program never reads.
  \<open>EV_KEY\<close> is the constant of \<open>linux/input.h\<close>.
\<close>

record input_event =
  ev_type :: nat
  ev_code :: nat
  ev_value :: int

definition EV_KEY :: nat where
  "EV_KEY = 1"

text \<open>
  The body of the \<open>RELEASE Button\<close> branch. \<open>None\<close> means that the program has left
  defined behaviour (the cast of the measured time has no result).
\<close>

definition release_button :: "timespec option \<Rightarrow> prog \<Rightarrow> prog option" where
  "release_button clk s =
     (let (total_time, s) = test_time (timer_start s) clk s
      in if total_time \<noteq> 0 then
           (case ulong_of_double total_time of
              None \<Rightarrow> None
            | Some seconds \<Rightarrow>
                (let s = process_end_time seconds s;
                     s = s\<lparr>timer_start := \<lparr>tv_sec = 0, tv_nsec = 0\<rparr>\<rparr>;
                     s = emit (System (str_sys_call_led LED_FLASH_GREEN)) s
                 in Some s))
         else Some (emit (Printf ''Invalid Time'' []) s))"

text \<open>
  The \<open>for\<close> loop over the events of one \<open>read\<close>. Each event comes with the clock
  reading that \<open>clock_gettime\<close> gives while it is handled. A failed clock read on a
  press leaves the loop (\<open>break\<close>).
\<close>

fun process_events :: "(input_event \<times> timespec option) list \<Rightarrow> prog \<Rightarrow> prog option" where
  "process_events [] s = Some s"
| "process_events ((e, clk) # evs) s =
     (if ev_type e \<noteq> EV_KEY then process_events evs s
      else if ev_code e = 256 then
        (if ev_value e = 1 then
           (case clk of
              None \<Rightarrow> Some (emit (Perror ''clock gettime'') s)
            | Some ts \<Rightarrow> process_events evs (s\<lparr>timer_start := ts\<rparr>))
         else if ev_value e = 0 then
           (case release_button clk s of
              None \<Rightarrow> None
            | Some s' \<Rightarrow> process_events evs s')
         else process_events evs s)
      else process_events evs s)"

text \<open>
  What \<open>read\<close> returned: fewer bytes than one event (with \<open>errno \<noteq> EINTR\<close> or not), or
  a batch of whole events.
\<close>

datatype read_result =
    Read_short bool
  | Read_events "(input_event \<times> timespec option) list"

text \<open>One pass of the \<open>while (1)\<close> loop; \<open>clk\<close> is the clock reading of the final sample.\<close>

definition main_loop_body :: "read_result \<Rightarrow> timespec option \<Rightarrow> prog \<Rightarrow> prog option" where
  "main_loop_body rd clk s =
     (case (case rd of
              Read_short not_eintr \<Rightarrow> Some (if not_eintr then emit (Perror ''read error'') s else s)
            | Read_events evs \<Rightarrow> process_events evs s) of
        None \<Rightarrow> None
      | Some s \<Rightarrow>
          (let (total_time, s) = test_time (timer_start s) clk s
           in if total_time \<noteq> 0 then
                (case ulong_of_double total_time of
                   None \<Rightarrow> None
                 | Some seconds \<Rightarrow> Some (process_time seconds s))
              else Some s))"

text \<open>
  The code before the loop. \<open>Inl 1\<close> is the exit status when no device is named.
\<close>

definition main_setup :: "bool \<Rightarrow> stat_result \<Rightarrow> timer_env \<Rightarrow> prog \<Rightarrow> int + prog" where
  "main_setup device st tenv s =
     (let s = s\<lparr>state := PB_STATE_START\<rparr>
      in if \<not> device then Inl 1
         else
           (let s = pb_initialise s;
                s = s\<lparr>timer_start := \<lparr>tv_sec = 0, tv_nsec = 0\<rparr>\<rparr>;
                s = emit (Printf ''Start Push-Button Monitor'' []) s;
                s = emit (Printf ''Start-Mode, press push-button for factory Reset'' []) s;
                (time_start, s) = check_inuse_factory_reset st s;
                (r, s) = make_timer tenv time_start TIMER1_INTERVAL s
            in Inr s))"

text \<open>
  What happens after the set-up: the timer signal runs \<open>timer_handler\<close>, and the loop
  makes a pass. The signal is taken between two passes; a signal that arrives while a
  pass is under way is not part of this model.
\<close>

datatype input =
    Signal int
  | Loop_pass read_result "timespec option"

fun step :: "input \<Rightarrow> prog \<Rightarrow> prog option" where
  "step (Signal sig) s = Some (timer_handler sig s)"
| "step (Loop_pass rd clk) s = main_loop_body rd clk s"

fun run :: "input list \<Rightarrow> prog \<Rightarrow> prog option" where
  "run [] s = Some s"
| "run (i # is) s = (case step i s of None \<Rightarrow> None | Some s' \<Rightarrow> run is s')"

text \<open>
  The whole program on the globals as loaded: the exit status when \<open>main\<close> returns before
  its loop, otherwise the state after the given inputs (\<open>None\<close> when the run has left
  defined behaviour).
\<close>

definition main :: "bool \<Rightarrow> stat_result \<Rightarrow> timer_env \<Rightarrow> input list \<Rightarrow> int + prog option" where
  "main device st tenv inputs =
     (case main_setup device st tenv init_prog of
        Inl status \<Rightarrow> Inl status
      | Inr s \<Rightarrow> Inr (run inputs s))"

section \<open>Observing a run\<close>

text \<open>
  The calls of the factory-reset script among the recorded effects: the \<open>system\<close> calls
  whose command starts with the initial contents of the command buffer.
\<close>

fun is_check_factory_reset_call :: "effect \<Rightarrow> bool" where
  "is_check_factory_reset_call (System c) =
     (take (length check_factory_reset_init) c = check_factory_reset_init)"
| "is_check_factory_reset_call (Printf f args) = False"
| "is_check_factory_reset_call (Perror m) = False"
| "is_check_factory_reset_call (Fopen_w_fclose p) = False"
| "is_check_factory_reset_call (Remove p) = False"
| "is_check_factory_reset_call (Timer_settime v i) = False"

definition check_factory_reset_calls :: "effect list \<Rightarrow> effect list" where
  "check_factory_reset_calls es = filter is_check_factory_reset_call es"

text \<open>
  The key events of the push button (code 256): value 1 is a press, value 0 a release.
\<close>

definition is_press :: "input_event \<Rightarrow> bool" where
  "is_press e = (ev_type e = EV_KEY \<and> ev_code e = 256 \<and> ev_value e = 1)"

definition is_release :: "input_event \<Rightarrow> bool" where
  "is_release e = (ev_type e = EV_KEY \<and> ev_code e = 256 \<and> ev_value e = 0)"

subsection \<open>Steps of a run\<close>

text \<open>The command buffer still starts with its initial contents.\<close>

definition buffer_ok :: "prog \<Rightarrow> bool" where
  "buffer_ok s = is_check_factory_reset_call (System (str_sys_call_check_factory_reset s))"

text \<open>
  A step is \<open>quiet\<close> when it keeps the mode and the buffer and calls the script not at
  all; it has \<open>fired\<close> when it ends in mode IN-USE, has appended one character to the
  buffer and has called the script once, with the new buffer.
\<close>

definition quiet :: "prog \<Rightarrow> prog \<Rightarrow> bool" where
  "quiet s s' \<longleftrightarrow>
     state s' = state s \<and>
     str_sys_call_check_factory_reset s' = str_sys_call_check_factory_reset s \<and>
     check_factory_reset_calls (out s') = check_factory_reset_calls (out s)"

definition fired :: "prog \<Rightarrow> prog \<Rightarrow> bool" where
  "fired s s' \<longleftrightarrow>
     state s' = PB_STATE_INUSE \<and>
     (\<exists>f. str_sys_call_check_factory_reset s' = str_sys_call_check_factory_reset s @ [f]) \<and>
     check_factory_reset_calls (out s') =
       check_factory_reset_calls (out s) @ [System (str_sys_call_check_factory_reset s')]"

definition main_step :: "prog \<Rightarrow> prog \<Rightarrow> bool" where
  "main_step s s' \<longleftrightarrow> quiet s s' \<or> (state s = PB_STATE_START \<and> fired s s')"

section \<open>Basic facts\<close>

lemma emit_fields [simp]:
  "state (emit e s) = state s"
  "str_sys_call_check_factory_reset (emit e s) = str_sys_call_check_factory_reset s"
  "timer_start (emit e s) = timer_start s"
  "out (emit e s) = out s @ [e]"
  by (simp_all add: emit_def)

lemma strcat_fields [simp]:
  "state (strcat_check_factory_reset f s) = state s"
  "str_sys_call_check_factory_reset (strcat_check_factory_reset f s) =
     str_sys_call_check_factory_reset s @ f"
  "timer_start (strcat_check_factory_reset f s) = timer_start s"
  "out (strcat_check_factory_reset f s) = out s"
  by (simp_all add: strcat_check_factory_reset_def)

text \<open>
  The array is full from the start, so a \<open>strcat\<close> of a flag of one character writes
  the terminator one byte past its end, and more once the buffer has grown.
\<close>

lemma strcat_past_end_loaded:
  "str_sys_call_check_factory_reset s = check_factory_reset_init \<Longrightarrow>
     strcat_past_end [c] s = 1"
  by (simp add: strcat_past_end_def check_factory_reset_size_def)

lemma strcat_past_end_positive:
  assumes "length check_factory_reset_init \<le> length (str_sys_call_check_factory_reset s)"
    and "flag \<noteq> []"
  shows "0 < strcat_past_end flag s"
proof -
  have "1 \<le> length flag"
    using assms(2) by (cases flag) simp_all
  then show ?thesis
    unfolding strcat_past_end_def check_factory_reset_size_def
    using assms(1) by arith
qed

subsection \<open>Measured time\<close>

lemma floor_sec_nsec:
  assumes "0 \<le> n" and "n < 1000000000"
  shows "\<lfloor>(of_int a :: rat) + of_int n / 1000000000\<rfloor> = a"
proof -
  have "\<lfloor>(of_int n :: rat) / of_int 1000000000\<rfloor> = n div 1000000000"
    by (rule floor_divide_of_int_eq)
  with assms have "\<lfloor>(of_int n :: rat) / 1000000000\<rfloor> = 0"
    by simp
  then show ?thesis
    by simp
qed

lemma sec_nsec_sign:
  "0 < (of_int a :: rat) + of_int n / 1000000000 \<longleftrightarrow> 0 < a * 1000000000 + n"
proof -
  have eq: "(of_int a :: rat) + of_int n / 1000000000 = of_int (a * 1000000000 + n) / 1000000000"
    by (simp add: field_simps)
  have "0 < x / 1000000000 \<longleftrightarrow> 0 < x" for x :: rat
    by simp
  then have "0 < (of_int (a * 1000000000 + n) :: rat) / 1000000000 \<longleftrightarrow>
      0 < (of_int (a * 1000000000 + n) :: rat)"
    by blast
  also have "\<dots> \<longleftrightarrow> 0 < a * 1000000000 + n"
    by (rule of_int_0_less_iff)
  finally show ?thesis
    by (simp only: eq)
qed

lemma timespec_diff_total:
  "tv_sec (timespec_diff start stop) * 1000000000 + tv_nsec (timespec_diff start stop) =
     (tv_sec stop * 1000000000 + tv_nsec stop) - (tv_sec start * 1000000000 + tv_nsec start)"
  by (simp add: timespec_diff_def)

lemma timespec_diff_nsec_range:
  assumes "0 \<le> tv_nsec start" and "tv_nsec start < 1000000000"
    and "0 \<le> tv_nsec stop" and "tv_nsec stop < 1000000000"
  shows "0 \<le> tv_nsec (timespec_diff start stop)"
    and "tv_nsec (timespec_diff start stop) < 1000000000"
  using assms by (simp_all add: timespec_diff_def)

lemma timespec_diff_sec:
  assumes "0 \<le> tv_nsec start" and "tv_nsec start < 1000000000"
    and "0 \<le> tv_nsec stop" and "tv_nsec stop < 1000000000"
  shows "tv_sec (timespec_diff start stop) =
     ((tv_sec stop * 1000000000 + tv_nsec stop) - (tv_sec start * 1000000000 + tv_nsec start))
       div 1000000000"
proof -
  let ?d = "timespec_diff start stop"
  have r: "0 \<le> tv_nsec ?d" "tv_nsec ?d < 1000000000"
    using assms by (rule timespec_diff_nsec_range)+
  have "(tv_sec ?d * 1000000000 + tv_nsec ?d) div 1000000000 = tv_sec ?d"
    using r by simp
  then show ?thesis
    by (simp add: timespec_diff_total)
qed

text \<open>
  A later clock reading gives a positive measured time whose integral part is the whole
  number of seconds between the two readings.
\<close>

lemma test_time_later:
  assumes op: "tv_sec start > 0 \<or> tv_nsec start > 0"
    and r: "0 \<le> tv_nsec start" "tv_nsec start < 1000000000"
      "0 \<le> tv_nsec stop" "tv_nsec stop < 1000000000"
    and later: "tv_sec start * 1000000000 + tv_nsec start < tv_sec stop * 1000000000 + tv_nsec stop"
  shows "\<exists>t. test_time start (Some stop) s = (t, s) \<and> 0 < t \<and>
      ulong_of_double t = Some (nat (((tv_sec stop * 1000000000 + tv_nsec stop) -
        (tv_sec start * 1000000000 + tv_nsec start)) div 1000000000))"
proof -
  let ?d = "timespec_diff start stop"
  let ?t = "(of_int (tv_sec ?d) :: rat) + of_int (tv_nsec ?d) / 1000000000"
  have n: "0 \<le> tv_nsec ?d" "tv_nsec ?d < 1000000000"
    using r by (rule timespec_diff_nsec_range)+
  have tt: "test_time start (Some stop) s = (?t, s)"
    using op by (simp add: test_time_def Let_def)
  have "0 < tv_sec ?d * 1000000000 + tv_nsec ?d"
    using later by (simp add: timespec_diff_total)
  then have pos: "0 < ?t"
    by (simp only: sec_nsec_sign)
  have fl: "\<lfloor>?t\<rfloor> = tv_sec ?d"
    using n by (rule floor_sec_nsec)
  have "ulong_of_double ?t = Some (nat (tv_sec ?d))"
    using pos by (simp add: ulong_of_double_def fl)
  then show ?thesis
    using tt pos r by (simp add: timespec_diff_sec)
qed

lemma release_button_later:
  assumes op: "tv_sec (timer_start s) > 0 \<or> tv_nsec (timer_start s) > 0"
    and r: "0 \<le> tv_nsec (timer_start s)" "tv_nsec (timer_start s) < 1000000000"
      "0 \<le> tv_nsec stop" "tv_nsec stop < 1000000000"
    and later: "tv_sec (timer_start s) * 1000000000 + tv_nsec (timer_start s)
        < tv_sec stop * 1000000000 + tv_nsec stop"
  shows "release_button (Some stop) s =
     Some (emit (System ''./set_led.sh 3'')
       ((process_end_time
          (nat (((tv_sec stop * 1000000000 + tv_nsec stop) -
             (tv_sec (timer_start s) * 1000000000 + tv_nsec (timer_start s))) div 1000000000)) s)
        \<lparr>timer_start := \<lparr>tv_sec = 0, tv_nsec = 0\<rparr>\<rparr>))"
proof -
  obtain t where t: "test_time (timer_start s) (Some stop) s = (t, s)" "0 < t"
    "ulong_of_double t = Some (nat (((tv_sec stop * 1000000000 + tv_nsec stop) -
        (tv_sec (timer_start s) * 1000000000 + tv_nsec (timer_start s))) div 1000000000))"
    using test_time_later [OF op r later] by blast
  then show ?thesis
    by (simp add: release_button_def Let_def)
qed

subsection \<open>The dispatcher, band by band\<close>






section \<open>C1: the action dispatcher\<close>




section \<open>C2: a long press during start-up\<close>

lemma process_end_time_long_state:
  "5 \<le> seconds \<Longrightarrow> state (process_end_time seconds s) = state s"
  by (simp add: process_end_time_def Let_def)

lemma process_end_time_long_mode_independent:
  "5 \<le> seconds \<Longrightarrow>
     process_end_time seconds (s\<lparr>state := m\<rparr>) = (process_end_time seconds s)\<lparr>state := m\<rparr>"
  by (simp add: process_end_time_def Let_def emit_def)

text \<open>
  C2 as the specification states it fails: a press of 7 s released during start-up (marker
  file absent, timer not yet expired) creates the marker file and leaves the mode START-UP.
\<close>

theorem C2_startup_long_press_counterexample:
  "main True (Stat_failure ENOENT) Timer_ok
     [Loop_pass (Read_events [(\<lparr>ev_type = 1, ev_code = 256, ev_value = 1\<rparr>,
          Some \<lparr>tv_sec = 100, tv_nsec = 0\<rparr>)]) (Some \<lparr>tv_sec = 100, tv_nsec = 5000\<rparr>),
      Loop_pass (Read_events [(\<lparr>ev_type = 1, ev_code = 256, ev_value = 0\<rparr>,
          Some \<lparr>tv_sec = 107, tv_nsec = 0\<rparr>)]) (Some \<lparr>tv_sec = 107, tv_nsec = 5000\<rparr>)] =
   Inr (Some
     \<lparr>state = PB_STATE_START,
      str_sys_call_check_factory_reset = ''/usr/local/bin/check-factory-reset.sh '',
      timer_start = \<lparr>tv_sec = 0, tv_nsec = 0\<rparr>,
      out = [System ''i2cset -f -y 0 0x20 0 0'', System ''mkdir -p /opt/monitors/'',
             Printf ''Start Push-Button Monitor'' [],
             Printf ''Start-Mode, press push-button for factory Reset'' [],
             System ''./set_led.sh 2'', Timer_settime 10 2,
             Printf ''Long Push-Button Press (5+sec) - Enter factory reset on next reboot'' [],
             Fopen_w_fclose ''/opt/monitors/fc-set'', System ''./set_led.sh 3'']\<rparr>)"
  by code_simp

text \<open>
  C2, amended. For a release of 5 s or more in mode START-UP the dispatcher does exactly
  what it does in mode IN-USE for the same duration, and the mode is left as it was: it
  stays START-UP, also after the rest of the release branch of \<open>main\<close>.
\<close>

theorem C2_startup_long_press:
  assumes "5 \<le> seconds" and "state s = PB_STATE_START"
  shows "process_end_time seconds s =
      (process_end_time seconds (s\<lparr>state := PB_STATE_INUSE\<rparr>))\<lparr>state := PB_STATE_START\<rparr> \<and>
    state (process_end_time seconds s) = PB_STATE_START \<and>
    state (emit (System ''./set_led.sh 3'')
      ((process_end_time seconds s)\<lparr>timer_start := \<lparr>tv_sec = 0, tv_nsec = 0\<rparr>\<rparr>)) = PB_STATE_START"
proof -
  have "process_end_time seconds (s\<lparr>state := PB_STATE_INUSE\<rparr>) =
      (process_end_time seconds s)\<lparr>state := PB_STATE_INUSE\<rparr>"
    using assms(1) by (rule process_end_time_long_mode_independent)
  moreover have "state (process_end_time seconds s) = PB_STATE_START"
    using assms by (simp add: process_end_time_long_state)
  ultimately show ?thesis
    by simp
qed

theorem C2_startup_long_press_witness:
  "(5::nat) \<le> 7 \<and> state init_prog = PB_STATE_START \<and>
   process_end_time 7 init_prog =
      (process_end_time 7 (init_prog\<lparr>state := PB_STATE_INUSE\<rparr>))\<lparr>state := PB_STATE_START\<rparr> \<and>
   state (process_end_time 7 init_prog) = PB_STATE_START"
proof -
  have h: "(5::nat) \<le> 7" "state init_prog = PB_STATE_START"
    by (simp_all add: init_prog_def)
  show ?thesis
    using h C2_startup_long_press [OF h] by simp
qed

section \<open>C3: the LED while the button is held\<close>

lemma process_time_inuse:
  assumes "state s = PB_STATE_INUSE"
  shows "process_time seconds s =
     (if 15 \<le> seconds then s\<lparr>out := out s @ [System ''./set_led.sh 3'']\<rparr>
      else if 10 \<le> seconds then s\<lparr>out := out s @ [System ''./set_led.sh 4'']\<rparr>
      else if 5 \<le> seconds then s\<lparr>out := out s @ [System ''./set_led.sh 2'']\<rparr>
      else s)"
  using assms by (simp add: process_time_def emit_def)

lemma process_time_start:
  "state s = PB_STATE_START \<Longrightarrow> process_time seconds s = s"
  by (simp add: process_time_def)

text \<open>The sample at the end of a loop pass that handled no event.\<close>

lemma main_loop_body_sample:
  assumes op: "tv_sec (timer_start s) > 0 \<or> tv_nsec (timer_start s) > 0"
    and r: "0 \<le> tv_nsec (timer_start s)" "tv_nsec (timer_start s) < 1000000000"
      "0 \<le> tv_nsec now" "tv_nsec now < 1000000000"
    and later: "tv_sec (timer_start s) * 1000000000 + tv_nsec (timer_start s)
        < tv_sec now * 1000000000 + tv_nsec now"
  shows "main_loop_body (Read_short False) (Some now) s =
     Some (process_time
       (nat (((tv_sec now * 1000000000 + tv_nsec now) -
          (tv_sec (timer_start s) * 1000000000 + tv_nsec (timer_start s))) div 1000000000)) s)"
proof -
  obtain t where t: "test_time (timer_start s) (Some now) s = (t, s)" "0 < t"
    "ulong_of_double t = Some (nat (((tv_sec now * 1000000000 + tv_nsec now) -
        (tv_sec (timer_start s) * 1000000000 + tv_nsec (timer_start s))) div 1000000000))"
    using test_time_later [OF op r later] by blast
  then show ?thesis
    by (simp add: main_loop_body_def Let_def)
qed

text \<open>
  C3 as the specification states it fails twice: in mode IN-USE a press held for 3 s
  gets no LED command at all (the program never sets the LED green), and in mode START-UP
  a press held for 12 s gets none either (no flashing red).
\<close>

theorem C3_led_while_held_counterexample:
  "main_loop_body (Read_short False) (Some \<lparr>tv_sec = 103, tv_nsec = 0\<rparr>)
     \<lparr>state = PB_STATE_INUSE,
      str_sys_call_check_factory_reset = ''/usr/local/bin/check-factory-reset.sh 0'',
      timer_start = \<lparr>tv_sec = 100, tv_nsec = 0\<rparr>, out = []\<rparr> =
   Some \<lparr>state = PB_STATE_INUSE,
      str_sys_call_check_factory_reset = ''/usr/local/bin/check-factory-reset.sh 0'',
      timer_start = \<lparr>tv_sec = 100, tv_nsec = 0\<rparr>, out = []\<rparr> \<and>
   main_loop_body (Read_short False) (Some \<lparr>tv_sec = 112, tv_nsec = 0\<rparr>)
     \<lparr>state = PB_STATE_START,
      str_sys_call_check_factory_reset = ''/usr/local/bin/check-factory-reset.sh '',
      timer_start = \<lparr>tv_sec = 100, tv_nsec = 0\<rparr>, out = []\<rparr> =
   Some \<lparr>state = PB_STATE_START,
      str_sys_call_check_factory_reset = ''/usr/local/bin/check-factory-reset.sh '',
      timer_start = \<lparr>tv_sec = 100, tv_nsec = 0\<rparr>, out = []\<rparr>"
  by code_simp

text \<open>
  The sample at the end of any loop pass: \<open>u\<close> is the state that the first part of the
  pass (the short read, or the events of the read) leaves.
\<close>

lemma main_loop_body_sample_after:
  assumes f: "(case rd of
        Read_short not_eintr \<Rightarrow> Some (if not_eintr then emit (Perror ''read error'') s else s)
      | Read_events evs \<Rightarrow> process_events evs s) = Some u"
    and op: "tv_sec (timer_start u) > 0 \<or> tv_nsec (timer_start u) > 0"
    and r: "0 \<le> tv_nsec (timer_start u)" "tv_nsec (timer_start u) < 1000000000"
      "0 \<le> tv_nsec now" "tv_nsec now < 1000000000"
    and later: "tv_sec (timer_start u) * 1000000000 + tv_nsec (timer_start u)
        < tv_sec now * 1000000000 + tv_nsec now"
  shows "main_loop_body rd (Some now) s =
     Some (process_time
       (nat (((tv_sec now * 1000000000 + tv_nsec now) -
          (tv_sec (timer_start u) * 1000000000 + tv_nsec (timer_start u))) div 1000000000)) u)"
proof -
  obtain t where t: "test_time (timer_start u) (Some now) u = (t, u)" "0 < t"
    "ulong_of_double t = Some (nat (((tv_sec now * 1000000000 + tv_nsec now) -
        (tv_sec (timer_start u) * 1000000000 + tv_nsec (timer_start u))) div 1000000000))"
    using test_time_later [OF op r later] by blast
  have "main_loop_body rd (Some now) s =
      (let (total_time, v) = test_time (timer_start u) (Some now) u
       in if total_time \<noteq> 0 then
            (case ulong_of_double total_time of
               None \<Rightarrow> None
             | Some seconds \<Rightarrow> Some (process_time seconds v))
          else Some v)"
    unfolding main_loop_body_def f by simp
  then show ?thesis
    using t by simp
qed

lemma main_loop_body_sample_short:
  assumes op: "tv_sec (timer_start s) > 0 \<or> tv_nsec (timer_start s) > 0"
    and r: "0 \<le> tv_nsec (timer_start s)" "tv_nsec (timer_start s) < 1000000000"
      "0 \<le> tv_nsec now" "tv_nsec now < 1000000000"
    and later: "tv_sec (timer_start s) * 1000000000 + tv_nsec (timer_start s)
        < tv_sec now * 1000000000 + tv_nsec now"
  shows "main_loop_body (Read_short b) (Some now) s =
     Some (process_time
       (nat (((tv_sec now * 1000000000 + tv_nsec now) -
          (tv_sec (timer_start s) * 1000000000 + tv_nsec (timer_start s))) div 1000000000))
       (if b then emit (Perror ''read error'') s else s))"
proof -
  let ?u = "if b then emit (Perror ''read error'') s else s"
  have ts: "timer_start ?u = timer_start s"
    by simp
  have "(case Read_short b of
        Read_short not_eintr \<Rightarrow> Some (if not_eintr then emit (Perror ''read error'') s else s)
      | Read_events evs \<Rightarrow> process_events evs s) = Some ?u"
    by simp
  from main_loop_body_sample_after [OF this, of now] op r later show ?thesis
    unfolding ts by blast
qed

lemma main_loop_body_sample_events:
  assumes f: "process_events evs s = Some u"
    and op: "tv_sec (timer_start u) > 0 \<or> tv_nsec (timer_start u) > 0"
    and r: "0 \<le> tv_nsec (timer_start u)" "tv_nsec (timer_start u) < 1000000000"
      "0 \<le> tv_nsec now" "tv_nsec now < 1000000000"
    and later: "tv_sec (timer_start u) * 1000000000 + tv_nsec (timer_start u)
        < tv_sec now * 1000000000 + tv_nsec now"
  shows "main_loop_body (Read_events evs) (Some now) s =
     Some (process_time
       (nat (((tv_sec now * 1000000000 + tv_nsec now) -
          (tv_sec (timer_start u) * 1000000000 + tv_nsec (timer_start u))) div 1000000000)) u)"
proof -
  have "(case Read_events evs of
        Read_short not_eintr \<Rightarrow> Some (if not_eintr then emit (Perror ''read error'') s else s)
      | Read_events evs \<Rightarrow> process_events evs s) = Some u"
    using f by simp
  from main_loop_body_sample_after [OF this op r later] show ?thesis .
qed

text \<open>
  C3, amended. While a press is held, every loop pass ends with a sample that gives
  \<open>process_time\<close> the whole seconds held so far, whatever \<open>read\<close> returned: a short read
  (interrupted or not) or a batch of events, after which the press is open. What
  \<open>process_time\<close> does depends on the mode and these seconds only. In mode IN-USE: no LED
  command below 5 s, solid red (\<open>set_led.sh 2\<close>) from 5 s, flashing red (\<open>set_led.sh 4\<close>)
  from 10 s, flashing green (\<open>set_led.sh 3\<close>) from 15 s. In mode START-UP: no LED command,
  whatever the duration. A release with a later clock reading ends with the LED set to
  flashing green.
\<close>

theorem C3_led_while_held:
  "(state s = PB_STATE_INUSE \<longrightarrow>
      process_time seconds s =
        (if 15 \<le> seconds then s\<lparr>out := out s @ [System ''./set_led.sh 3'']\<rparr>
         else if 10 \<le> seconds then s\<lparr>out := out s @ [System ''./set_led.sh 4'']\<rparr>
         else if 5 \<le> seconds then s\<lparr>out := out s @ [System ''./set_led.sh 2'']\<rparr>
         else s)) \<and>
   (state s = PB_STATE_START \<longrightarrow> process_time seconds s = s) \<and>
   ((tv_sec (timer_start s) > 0 \<or> tv_nsec (timer_start s) > 0) \<and>
    0 \<le> tv_nsec (timer_start s) \<and> tv_nsec (timer_start s) < 1000000000 \<and>
    0 \<le> tv_nsec now \<and> tv_nsec now < 1000000000 \<and>
    tv_sec (timer_start s) * 1000000000 + tv_nsec (timer_start s)
      < tv_sec now * 1000000000 + tv_nsec now \<longrightarrow>
      main_loop_body (Read_short b) (Some now) s =
        Some (process_time
          (nat (((tv_sec now * 1000000000 + tv_nsec now) -
             (tv_sec (timer_start s) * 1000000000 + tv_nsec (timer_start s))) div 1000000000))
          (if b then emit (Perror ''read error'') s else s)) \<and>
      (\<exists>s'. release_button (Some now) s = Some s' \<and>
         last (out s') = System ''./set_led.sh 3'')) \<and>
   (process_events evs s = Some u \<and>
    (tv_sec (timer_start u) > 0 \<or> tv_nsec (timer_start u) > 0) \<and>
    0 \<le> tv_nsec (timer_start u) \<and> tv_nsec (timer_start u) < 1000000000 \<and>
    0 \<le> tv_nsec now \<and> tv_nsec now < 1000000000 \<and>
    tv_sec (timer_start u) * 1000000000 + tv_nsec (timer_start u)
      < tv_sec now * 1000000000 + tv_nsec now \<longrightarrow>
      main_loop_body (Read_events evs) (Some now) s =
        Some (process_time
          (nat (((tv_sec now * 1000000000 + tv_nsec now) -
             (tv_sec (timer_start u) * 1000000000 + tv_nsec (timer_start u))) div 1000000000))
          u))"
proof -
  have "\<exists>s'. release_button (Some now) s = Some s' \<and> last (out s') = System ''./set_led.sh 3''"
    if "tv_sec (timer_start s) > 0 \<or> tv_nsec (timer_start s) > 0"
      and "0 \<le> tv_nsec (timer_start s)" "tv_nsec (timer_start s) < 1000000000"
      "0 \<le> tv_nsec now" "tv_nsec now < 1000000000"
      and "tv_sec (timer_start s) * 1000000000 + tv_nsec (timer_start s)
        < tv_sec now * 1000000000 + tv_nsec now"
    using release_button_later [OF that] by simp
  then show ?thesis
    using process_time_inuse [of s seconds] process_time_start [of s seconds]
      main_loop_body_sample_short [of s now b] main_loop_body_sample_events [of evs s u now]
    by blast
qed

text \<open>
  In mode IN-USE: one duration in each band; a press read at 100.0000007 s and sampled
  at 107.0000002 s, after an interrupted read, after a failed read, and after a read
  that brought the press itself; and the release of that press.
\<close>

theorem C3_led_while_held_witness:
  "process_time 4 (init_prog\<lparr>state := PB_STATE_INUSE\<rparr>) = init_prog\<lparr>state := PB_STATE_INUSE\<rparr> \<and>
   out (process_time 5 (init_prog\<lparr>state := PB_STATE_INUSE\<rparr>)) = [System ''./set_led.sh 2''] \<and>
   out (process_time 10 (init_prog\<lparr>state := PB_STATE_INUSE\<rparr>)) = [System ''./set_led.sh 4''] \<and>
   out (process_time 15 (init_prog\<lparr>state := PB_STATE_INUSE\<rparr>)) = [System ''./set_led.sh 3''] \<and>
   process_time 12 init_prog = init_prog \<and>
   main_loop_body (Read_short False) (Some \<lparr>tv_sec = 107, tv_nsec = 200\<rparr>)
     (init_prog\<lparr>state := PB_STATE_INUSE, timer_start := \<lparr>tv_sec = 100, tv_nsec = 700\<rparr>\<rparr>) =
     Some (process_time 6
       (init_prog\<lparr>state := PB_STATE_INUSE, timer_start := \<lparr>tv_sec = 100, tv_nsec = 700\<rparr>\<rparr>)) \<and>
   main_loop_body (Read_short True) (Some \<lparr>tv_sec = 107, tv_nsec = 200\<rparr>)
     (init_prog\<lparr>state := PB_STATE_INUSE, timer_start := \<lparr>tv_sec = 100, tv_nsec = 700\<rparr>\<rparr>) =
     Some (process_time 6
       (emit (Perror ''read error'')
         (init_prog\<lparr>state := PB_STATE_INUSE, timer_start := \<lparr>tv_sec = 100, tv_nsec = 700\<rparr>\<rparr>))) \<and>
   main_loop_body
     (Read_events [(\<lparr>ev_type = 1, ev_code = 256, ev_value = 1\<rparr>, Some \<lparr>tv_sec = 100, tv_nsec = 700\<rparr>)])
     (Some \<lparr>tv_sec = 107, tv_nsec = 200\<rparr>) (init_prog\<lparr>state := PB_STATE_INUSE\<rparr>) =
     Some (process_time 6
       (init_prog\<lparr>state := PB_STATE_INUSE, timer_start := \<lparr>tv_sec = 100, tv_nsec = 700\<rparr>\<rparr>)) \<and>
   (\<exists>s'. release_button (Some \<lparr>tv_sec = 107, tv_nsec = 200\<rparr>)
       (init_prog\<lparr>state := PB_STATE_INUSE, timer_start := \<lparr>tv_sec = 100, tv_nsec = 700\<rparr>\<rparr>) = Some s' \<and>
     last (out s') = System ''./set_led.sh 3'')"
proof -
  let ?u = "init_prog\<lparr>state := PB_STATE_INUSE\<rparr>"
  let ?h = "init_prog\<lparr>state := PB_STATE_INUSE, timer_start := \<lparr>tv_sec = 100, tv_nsec = 700\<rparr>\<rparr>"
  let ?now = "\<lparr>tv_sec = 107, tv_nsec = 200\<rparr>"
  let ?evs = "[(\<lparr>ev_type = 1, ev_code = 256, ev_value = 1\<rparr>, Some \<lparr>tv_sec = 100, tv_nsec = 700\<rparr>)]"
  have u: "state ?u = PB_STATE_INUSE" and i: "state init_prog = PB_STATE_START"
    and o: "out ?u = []"
    by (simp_all add: init_prog_def)
  have p: "process_events ?evs ?u = Some ?h"
    by (simp add: EV_KEY_def)
  have "process_time 4 ?u = ?u"
    using C3_led_while_held [where s = ?u and seconds = 4] u by simp
  moreover have "out (process_time 5 ?u) = [System ''./set_led.sh 2'']"
    using C3_led_while_held [where s = ?u and seconds = 5] u o by simp
  moreover have "out (process_time 10 ?u) = [System ''./set_led.sh 4'']"
    using C3_led_while_held [where s = ?u and seconds = 10] u o by simp
  moreover have "out (process_time 15 ?u) = [System ''./set_led.sh 3'']"
    using C3_led_while_held [where s = ?u and seconds = 15] u o by simp
  moreover have "process_time 12 init_prog = init_prog"
    using C3_led_while_held [where s = init_prog and seconds = 12] i by simp
  moreover have "main_loop_body (Read_short False) (Some ?now) ?h = Some (process_time 6 ?h) \<and>
    (\<exists>s'. release_button (Some ?now) ?h = Some s' \<and> last (out s') = System ''./set_led.sh 3'')"
    using C3_led_while_held [where s = ?h and now = ?now and b = False] by simp
  moreover have "main_loop_body (Read_short True) (Some ?now) ?h =
      Some (process_time 6 (emit (Perror ''read error'') ?h))"
    using C3_led_while_held [where s = ?h and now = ?now and b = True] by simp
  moreover have "main_loop_body (Read_events ?evs) (Some ?now) ?u = Some (process_time 6 ?h)"
    using C3_led_while_held [where s = ?u and evs = ?evs and u = ?h and now = ?now] p by simp
  ultimately show ?thesis
    by blast
qed

section \<open>How one step changes mode, command buffer and script calls\<close>

lemma check_calls_append [simp]:
  "check_factory_reset_calls (xs @ ys) = check_factory_reset_calls xs @ check_factory_reset_calls ys"
  by (simp add: check_factory_reset_calls_def)

lemma check_calls_Cons [simp]:
  "check_factory_reset_calls (e # es) =
     (if is_check_factory_reset_call e then e # check_factory_reset_calls es
      else check_factory_reset_calls es)"
  by (simp add: check_factory_reset_calls_def)

lemma check_calls_Nil [simp]: "check_factory_reset_calls [] = []"
  by (simp add: check_factory_reset_calls_def)

lemma system_is_check_call:
  "is_check_factory_reset_call (System c) \<longleftrightarrow>
     take (length check_factory_reset_init) c = check_factory_reset_init"
  by simp

declare is_check_factory_reset_call.simps(1) [simp del]

lemma led_not_check_call [simp]:
  "\<not> is_check_factory_reset_call (System ''./set_led.sh 0'')"
  "\<not> is_check_factory_reset_call (System ''./set_led.sh 1'')"
  "\<not> is_check_factory_reset_call (System ''./set_led.sh 2'')"
  "\<not> is_check_factory_reset_call (System ''./set_led.sh 3'')"
  "\<not> is_check_factory_reset_call (System ''./set_led.sh 4'')"
  by (simp_all add: system_is_check_call check_factory_reset_init_def)

lemma fixed_not_check_call [simp]:
  "\<not> is_check_factory_reset_call (System str_sys_call_reboot)"
  "\<not> is_check_factory_reset_call (System str_sys_call_shutdown)"
  "\<not> is_check_factory_reset_call (System str_sys_call_i2c_reset)"
  "\<not> is_check_factory_reset_call (System str_sys_call_opt_dir)"
  by (simp_all add: system_is_check_call check_factory_reset_init_def str_sys_call_reboot_def
      str_sys_call_shutdown_def str_sys_call_i2c_reset_def str_sys_call_opt_dir_def)

lemma buffer_ok_length:
  assumes "buffer_ok s"
  shows "length check_factory_reset_init \<le> length (str_sys_call_check_factory_reset s)"
proof -
  have "length (take (length check_factory_reset_init) (str_sys_call_check_factory_reset s)) =
      length check_factory_reset_init"
    using assms by (simp add: buffer_ok_def system_is_check_call)
  then show ?thesis
    by simp
qed

lemma buffer_ok_append:
  assumes "buffer_ok s"
  shows "is_check_factory_reset_call (System (str_sys_call_check_factory_reset s @ f))"
  using assms buffer_ok_length [OF assms] by (simp add: buffer_ok_def system_is_check_call)

lemma quiet_refl [simp]: "quiet s s"
  by (simp add: quiet_def)

lemma main_step_refl [simp]: "main_step s s"
  by (simp add: main_step_def)

lemma main_step_trans:
  assumes "main_step a b" and "main_step b c"
  shows "main_step a c"
  using assms unfolding main_step_def quiet_def fired_def by auto

lemma main_step_buffer_ok:
  assumes "main_step s s'" and "buffer_ok s"
  shows "buffer_ok s'"
proof -
  have "is_check_factory_reset_call (System (str_sys_call_check_factory_reset s @ [f]))" for f
    using assms(2) by (rule buffer_ok_append)
  then show ?thesis
    using assms unfolding main_step_def quiet_def fired_def buffer_ok_def by auto
qed

lemma main_step_timer_start [simp]:
  "main_step s (s'\<lparr>timer_start := t\<rparr>) = main_step s s'"
  "main_step (s\<lparr>timer_start := t\<rparr>) s' = main_step s s'"
  by (simp_all add: main_step_def quiet_def fired_def)

lemma main_step_emit:
  "\<not> is_check_factory_reset_call e \<Longrightarrow> main_step s (emit e s)"
  by (simp add: main_step_def quiet_def)

lemma timer_handler_step:
  assumes "buffer_ok s"
  shows "main_step s (timer_handler sig s)"
  using buffer_ok_append [OF assms, of "''0''"]
  by (cases "state s") (simp_all add: timer_handler_def main_step_def quiet_def fired_def Let_def)

lemma process_end_time_step:
  assumes "buffer_ok s"
  shows "main_step s (process_end_time seconds s)"
  using buffer_ok_append [OF assms, of "''1''"]
  by (cases "state s")
    (simp_all add: process_end_time_def main_step_def quiet_def fired_def Let_def)

lemma process_time_step: "main_step s (process_time seconds s)"
  by (simp add: process_time_def main_step_def quiet_def)

lemma test_time_step: "main_step s (snd (test_time start clk s))"
  by (simp add: test_time_def main_step_def quiet_def Let_def split: option.split)

lemma release_button_step:
  assumes "buffer_ok s" and "release_button clk s = Some s'"
  shows "main_step s s'"
proof -
  obtain t u where tu: "test_time (timer_start s) clk s = (t, u)"
    by (cases "test_time (timer_start s) clk s")
  have su: "main_step s u"
    using test_time_step [of s "timer_start s" clk] tu by simp
  then have bu: "buffer_ok u"
    using assms(1) by (rule main_step_buffer_ok)
  show ?thesis
  proof (cases "t = 0")
    case True
    then have "s' = emit (Printf ''Invalid Time'' []) u"
      using assms(2) tu by (simp add: release_button_def)
    moreover have "main_step u (emit (Printf ''Invalid Time'' []) u)"
      by (rule main_step_emit) simp
    ultimately show ?thesis
      using su by (metis main_step_trans)
  next
    case False
    then obtain n where n: "ulong_of_double t = Some n"
      and s': "s' = emit (System (str_sys_call_led LED_FLASH_GREEN))
          ((process_end_time n u)\<lparr>timer_start := \<lparr>tv_sec = 0, tv_nsec = 0\<rparr>\<rparr>)"
      using assms(2) tu by (auto simp: release_button_def Let_def split: option.splits)
    have "main_step u (process_end_time n u)"
      using bu by (rule process_end_time_step)
    then have a: "main_step s ((process_end_time n u)\<lparr>timer_start := \<lparr>tv_sec = 0, tv_nsec = 0\<rparr>\<rparr>)"
      using su by (simp add: main_step_trans [of s u])
    have "main_step ((process_end_time n u)\<lparr>timer_start := \<lparr>tv_sec = 0, tv_nsec = 0\<rparr>\<rparr>) s'"
      unfolding s' by (rule main_step_emit) simp
    with a show ?thesis
      by (rule main_step_trans)
  qed
qed

subsection \<open>The event loop, one event at a time\<close>

lemma process_events_press:
  "is_press e \<Longrightarrow>
     process_events ((e, Some ts) # evs) s = process_events evs (s\<lparr>timer_start := ts\<rparr>)"
  by (simp add: is_press_def)

lemma process_events_press_fail:
  "is_press e \<Longrightarrow>
     process_events ((e, None) # evs) s = Some (emit (Perror ''clock gettime'') s)"
  by (simp add: is_press_def)

lemma process_events_release:
  "is_release e \<Longrightarrow>
     process_events ((e, clk) # evs) s =
       (case release_button clk s of None \<Rightarrow> None | Some s' \<Rightarrow> process_events evs s')"
  by (simp add: is_release_def)

lemma process_events_other:
  "\<not> is_press e \<Longrightarrow> \<not> is_release e \<Longrightarrow>
     process_events ((e, clk) # evs) s = process_events evs s"
  by (simp add: is_press_def is_release_def)

lemma process_events_step:
  "buffer_ok s \<Longrightarrow> process_events evs s = Some s' \<Longrightarrow> main_step s s'"
proof (induction evs arbitrary: s)
  case Nil
  then show ?case by simp
next
  case (Cons a evs)
  obtain e clk where a: "a = (e, clk)"
    by (cases a)
  consider (press) "is_press e" | (release) "is_release e"
    | (other) "\<not> is_press e" "\<not> is_release e"
    by blast
  then show ?case
  proof cases
    case press
    show ?thesis
    proof (cases clk)
      case None
      then have "s' = emit (Perror ''clock gettime'') s"
        using Cons.prems(2) press by (simp only: a process_events_press_fail) simp
      then show ?thesis
        by (simp add: main_step_emit)
    next
      case (Some ts)
      then have "process_events evs (s\<lparr>timer_start := ts\<rparr>) = Some s'"
        using Cons.prems(2) press by (simp only: a process_events_press)
      moreover have "buffer_ok (s\<lparr>timer_start := ts\<rparr>)"
        using Cons.prems(1) by (simp add: buffer_ok_def)
      ultimately have "main_step (s\<lparr>timer_start := ts\<rparr>) s'"
        by (rule Cons.IH [rotated])
      then show ?thesis
        by simp
    qed
  next
    case release
    then have "(case release_button clk s of None \<Rightarrow> None | Some u \<Rightarrow> process_events evs u) = Some s'"
      using Cons.prems(2) by (simp only: a process_events_release)
    then obtain u where u: "release_button clk s = Some u" "process_events evs u = Some s'"
      by (cases "release_button clk s") simp_all
    have su: "main_step s u"
      using Cons.prems(1) u(1) by (rule release_button_step)
    then have "buffer_ok u"
      using Cons.prems(1) by (rule main_step_buffer_ok)
    then have "main_step u s'"
      using u(2) by (rule Cons.IH)
    with su show ?thesis
      by (rule main_step_trans)
  next
    case other
    then have "process_events evs s = Some s'"
      using Cons.prems(2) unfolding a by (simp add: process_events_other del: process_events.simps)
    with Cons.prems(1) show ?thesis
      by (rule Cons.IH)
  qed
qed

lemma main_loop_body_step:
  assumes "buffer_ok s" and "main_loop_body rd clk s = Some s'"
  shows "main_step s s'"
proof -
  obtain u where u: "(case rd of
        Read_short not_eintr \<Rightarrow> Some (if not_eintr then emit (Perror ''read error'') s else s)
      | Read_events evs \<Rightarrow> process_events evs s) = Some u"
    using assms(2) by (auto simp: main_loop_body_def split: option.splits)
  have su: "main_step s u"
  proof (cases rd)
    case (Read_short b)
    then show ?thesis
      using u by (auto simp: main_step_emit)
  next
    case (Read_events evs)
    then show ?thesis
      using u assms(1) by (simp add: process_events_step)
  qed
  obtain t v where tv: "test_time (timer_start u) clk u = (t, v)"
    by (cases "test_time (timer_start u) clk u")
  have uv: "main_step u v"
    using test_time_step [of u "timer_start u" clk] tv by simp
  have "s' = v \<or> (\<exists>n. s' = process_time n v)"
    using assms(2) u tv by (auto simp: main_loop_body_def Let_def split: option.splits if_splits)
  then have "main_step v s'"
    using process_time_step by auto
  with su uv show ?thesis
    by (metis main_step_trans)
qed

lemma step_main_step:
  assumes "buffer_ok s" and "step i s = Some s'"
  shows "main_step s s'"
proof (cases i)
  case (Signal sig)
  then show ?thesis
    using assms by (auto simp: timer_handler_step)
next
  case (Loop_pass rd clk)
  then show ?thesis
    using assms by (simp add: main_loop_body_step)
qed

lemma run_main_step:
  "buffer_ok s \<Longrightarrow> run inputs s = Some s' \<Longrightarrow> main_step s s'"
proof (induction inputs arbitrary: s)
  case Nil
  then show ?case by simp
next
  case (Cons i inputs)
  then obtain u where u: "step i s = Some u" "run inputs u = Some s'"
    by (auto split: option.splits)
  have su: "main_step s u"
    using Cons.prems(1) u(1) by (rule step_main_step)
  then have "buffer_ok u"
    using Cons.prems(1) by (rule main_step_buffer_ok)
  then have "main_step u s'"
    using u(2) by (rule Cons.IH)
  with su show ?case
    by (rule main_step_trans)
qed

section \<open>The mode along a run\<close>

lemma test_time_state [simp]: "state (snd (test_time start clk s)) = state s"
  by (simp add: test_time_def Let_def split: option.split)

lemma test_time_timer_start [simp]: "timer_start (snd (test_time start clk s)) = timer_start s"
  by (simp add: test_time_def Let_def split: option.split)

lemma process_time_state [simp]: "state (process_time seconds s) = state s"
  by (simp add: process_time_def)

lemma process_time_timer_start [simp]: "timer_start (process_time seconds s) = timer_start s"
  by (simp add: process_time_def)

lemma timer_handler_mode:
  "state (timer_handler sig s) = PB_STATE_INUSE"
  by (cases "state s") (simp_all add: timer_handler_def Let_def)

lemma process_end_time_mode:
  "state (process_end_time seconds s) = state s \<or>
   state s = PB_STATE_START \<and> state (process_end_time seconds s) = PB_STATE_INUSE"
  by (cases "state s") (simp_all add: process_end_time_def Let_def)

lemma check_inuse_factory_reset_mode:
  "state (snd (check_inuse_factory_reset st s)) = state s \<or>
   state (snd (check_inuse_factory_reset st s)) = PB_STATE_INUSE"
  by (simp add: check_inuse_factory_reset_def Let_def)

lemma release_button_mode:
  assumes "release_button clk s = Some s'"
  shows "state s' = state s \<or> state s = PB_STATE_START \<and> state s' = PB_STATE_INUSE"
proof -
  obtain t u where tu: "test_time (timer_start s) clk s = (t, u)"
    by (cases "test_time (timer_start s) clk s")
  then have u: "state u = state s"
    using test_time_state [of "timer_start s" clk s] by simp
  show ?thesis
  proof (cases "t = 0")
    case True
    then show ?thesis
      using assms tu u by (auto simp: release_button_def)
  next
    case False
    then obtain n where "s' = emit (System (str_sys_call_led LED_FLASH_GREEN))
          ((process_end_time n u)\<lparr>timer_start := \<lparr>tv_sec = 0, tv_nsec = 0\<rparr>\<rparr>)"
      using assms tu by (auto simp: release_button_def Let_def split: option.splits)
    then show ?thesis
      using process_end_time_mode [of n u] u by auto
  qed
qed

text \<open>The event loop changes the mode only by handling a release.\<close>

lemma process_events_mode:
  "process_events evs s = Some s' \<Longrightarrow>
     state s' = state s \<or>
     state s = PB_STATE_START \<and> state s' = PB_STATE_INUSE \<and> (\<exists>ec \<in> set evs. is_release (fst ec))"
proof (induction evs arbitrary: s)
  case Nil
  then show ?case by simp
next
  case (Cons a evs)
  obtain e clk where a: "a = (e, clk)"
    by (cases a)
  consider (press) "is_press e" | (release) "is_release e"
    | (other) "\<not> is_press e" "\<not> is_release e"
    by blast
  then show ?case
  proof cases
    case press
    show ?thesis
    proof (cases clk)
      case None
      then have "s' = emit (Perror ''clock gettime'') s"
        using Cons.prems press by (simp only: a process_events_press_fail) simp
      then show ?thesis
        by simp
    next
      case (Some ts)
      then have "process_events evs (s\<lparr>timer_start := ts\<rparr>) = Some s'"
        using Cons.prems press by (simp only: a process_events_press)
      from Cons.IH [OF this] show ?thesis
        by auto
    qed
  next
    case release
    then have "(case release_button clk s of None \<Rightarrow> None | Some u \<Rightarrow> process_events evs u) = Some s'"
      using Cons.prems by (simp only: a process_events_release)
    then obtain u where u: "release_button clk s = Some u" "process_events evs u = Some s'"
      by (cases "release_button clk s") simp_all
    have "\<exists>ec \<in> set (a # evs). is_release (fst ec)"
      using release a by simp
    then show ?thesis
      using release_button_mode [OF u(1)] Cons.IH [OF u(2)] by auto
  next
    case other
    then have "process_events evs s = Some s'"
      using Cons.prems unfolding a by (simp add: process_events_other del: process_events.simps)
    from Cons.IH [OF this] show ?thesis
      by auto
  qed
qed

lemma main_loop_body_mode:
  assumes "main_loop_body rd clk s = Some s'"
  shows "state s' = state s \<or>
     state s = PB_STATE_START \<and> state s' = PB_STATE_INUSE \<and>
       (\<exists>evs. rd = Read_events evs \<and> (\<exists>ec \<in> set evs. is_release (fst ec)))"
proof -
  obtain u where u: "(case rd of
        Read_short not_eintr \<Rightarrow> Some (if not_eintr then emit (Perror ''read error'') s else s)
      | Read_events evs \<Rightarrow> process_events evs s) = Some u"
    using assms by (auto simp: main_loop_body_def split: option.splits)
  obtain t v where tv: "test_time (timer_start u) clk u = (t, v)"
    by (cases "test_time (timer_start u) clk u")
  then have v: "state v = state u"
    using test_time_state [of "timer_start u" clk u] by simp
  have "s' = v \<or> (\<exists>n. s' = process_time n v)"
    using assms u tv by (auto simp: main_loop_body_def Let_def split: option.splits if_splits)
  then have s': "state s' = state u"
    using v by auto
  show ?thesis
  proof (cases rd)
    case (Read_short b)
    then show ?thesis
      using u s' by auto
  next
    case (Read_events evs)
    then have "process_events evs s = Some u"
      using u by simp
    from process_events_mode [OF this] show ?thesis
      using s' Read_events by auto
  qed
qed

lemma step_mode:
  assumes "step i s = Some s'"
  shows "state s' = state s \<or> state s' = PB_STATE_INUSE"
proof (cases i)
  case (Signal sig)
  then show ?thesis
    using assms timer_handler_mode [of sig s] by auto
next
  case (Loop_pass rd clk)
  then show ?thesis
    using assms main_loop_body_mode [of rd clk s s'] by auto
qed

lemma run_mode:
  "run inputs s = Some s' \<Longrightarrow> state s' = state s \<or> state s' = PB_STATE_INUSE"
proof (induction inputs arbitrary: s)
  case Nil
  then show ?case by simp
next
  case (Cons i inputs)
  then obtain u where u: "step i s = Some u" "run inputs u = Some s'"
    by (auto split: option.splits)
  show ?case
    using step_mode [OF u(1)] Cons.IH [OF u(2)] by auto
qed

lemma run_append:
  "run (xs @ ys) s = (case run xs s of None \<Rightarrow> None | Some u \<Rightarrow> run ys u)"
  by (induction xs arbitrary: s) (auto split: option.splits)

section \<open>The states \<open>main\<close> reaches\<close>

lemma init_call [simp]:
  "is_check_factory_reset_call (System (check_factory_reset_init @ f))"
  "is_check_factory_reset_call (System check_factory_reset_init)"
  by (simp_all add: system_is_check_call)

lemma make_timer_quiet: "quiet s (snd (make_timer tenv v i s))"
  by (cases tenv) (simp_all add: make_timer_def quiet_def)

lemma main_setup_reaches:
  assumes "main_setup device st tenv init_prog = Inr s"
  shows "buffer_ok s \<and>
    (state s = PB_STATE_START \<and>
       str_sys_call_check_factory_reset s = check_factory_reset_init \<and>
       check_factory_reset_calls (out s) = [] \<or>
     state s = PB_STATE_INUSE \<and>
       check_factory_reset_calls (out s) = [System (check_factory_reset_init @ ''1'')])"
proof -
  let ?a = "init_prog\<lparr>state := PB_STATE_START\<rparr>"
  let ?b = "emit (Printf ''Start-Mode, press push-button for factory Reset'' [])
      (emit (Printf ''Start Push-Button Monitor'' [])
        ((pb_initialise ?a)\<lparr>timer_start := \<lparr>tv_sec = 0, tv_nsec = 0\<rparr>\<rparr>))"
  let ?c = "snd (check_inuse_factory_reset st ?b)"
  have b: "state ?b = PB_STATE_START"
    "str_sys_call_check_factory_reset ?b = check_factory_reset_init"
    "check_factory_reset_calls (out ?b) = []"
    by (simp_all add: init_prog_def pb_initialise_def)
  have c: "state ?c = PB_STATE_START \<and>
       str_sys_call_check_factory_reset ?c = check_factory_reset_init \<and>
       check_factory_reset_calls (out ?c) = [] \<or>
     state ?c = PB_STATE_INUSE \<and>
       str_sys_call_check_factory_reset ?c = check_factory_reset_init @ ''1'' \<and>
       check_factory_reset_calls (out ?c) = [System (check_factory_reset_init @ ''1'')]"
    using b by (simp add: check_inuse_factory_reset_def Let_def)
  have "s = snd (make_timer tenv (fst (check_inuse_factory_reset st ?b)) TIMER1_INTERVAL ?c)"
    using assms by (simp add: main_setup_def Let_def split_beta split: if_splits)
  then have "quiet ?c s"
    by (simp add: make_timer_quiet)
  then show ?thesis
    using c unfolding quiet_def buffer_ok_def by auto
qed

text \<open>
  In mode START-UP the buffer is still as initialised and the script has not been called;
  in any case \<open>main\<close> has called it at most once.
\<close>

lemma main_reaches:
  assumes "main device st tenv inputs = Inr (Some s)"
  shows "(state s = PB_STATE_START \<longrightarrow>
       str_sys_call_check_factory_reset s = check_factory_reset_init \<and>
       check_factory_reset_calls (out s) = []) \<and>
    length (check_factory_reset_calls (out s)) \<le> 1"
proof -
  obtain s0 where s0: "main_setup device st tenv init_prog = Inr s0" "run inputs s0 = Some s"
    using assms by (auto simp: main_def split: sum.splits)
  have "main_step s0 s"
    using main_setup_reaches [OF s0(1)] s0(2) by (simp add: run_main_step)
  then show ?thesis
    using main_setup_reaches [OF s0(1)] unfolding main_step_def quiet_def fired_def by auto
qed

section \<open>C4: expiry of the start-up timer\<close>

lemma timer_handler_loaded:
  assumes "state s = PB_STATE_START"
    and "str_sys_call_check_factory_reset s = check_factory_reset_init"
  shows "state (timer_handler sig s) = PB_STATE_INUSE"
    and "out (timer_handler sig s) =
      out s @ [Printf ''Signal %d - Changes pb mode to in-use'' [sig],
               System ''./set_led.sh 3'',
               System ''/usr/local/bin/check-factory-reset.sh 0'']"
    and "timer_start (timer_handler sig s) = timer_start s"
  using assms by (simp_all add: timer_handler_def Let_def check_factory_reset_init_def)

text \<open>A step changes the mode only if it is a timer signal or handles a release.\<close>

lemma step_mode_cause:
  assumes "step i s = Some s'" and "state s' \<noteq> state s"
  shows "(\<exists>sig. i = Signal sig) \<or>
     (\<exists>evs clk. i = Loop_pass (Read_events evs) clk \<and> (\<exists>ec \<in> set evs. is_release (fst ec)))"
proof (cases i)
  case (Signal sig)
  then show ?thesis
    by simp
next
  case (Loop_pass rd clk)
  then have "main_loop_body rd clk s = Some s'"
    using assms(1) by simp
  from main_loop_body_mode [OF this] assms(2) Loop_pass show ?thesis
    by auto
qed

text \<open>The mode that the set-up leaves is decided by the result of \<open>stat\<close> alone.\<close>

lemma main_setup_mode:
  assumes "main_setup device st tenv init_prog = Inr v"
  shows "state v = PB_STATE_INUSE \<longleftrightarrow> st \<noteq> Stat_failure ENOENT"
proof -
  let ?b = "emit (Printf ''Start-Mode, press push-button for factory Reset'' [])
      (emit (Printf ''Start Push-Button Monitor'' [])
        ((pb_initialise (init_prog\<lparr>state := PB_STATE_START\<rparr>))
          \<lparr>timer_start := \<lparr>tv_sec = 0, tv_nsec = 0\<rparr>\<rparr>))"
  let ?c = "snd (check_inuse_factory_reset st ?b)"
  have b: "state ?b = PB_STATE_START"
    by (simp add: pb_initialise_def)
  have c: "state ?c = PB_STATE_INUSE \<longleftrightarrow> st \<noteq> Stat_failure ENOENT"
    using b by (simp add: check_inuse_factory_reset_def Let_def)
  have "v = snd (make_timer tenv (fst (check_inuse_factory_reset st ?b)) TIMER1_INTERVAL ?c)"
    using assms by (simp add: main_setup_def Let_def split_beta split: if_splits)
  then have "state v = state ?c"
    using make_timer_quiet [of ?c tenv] by (simp add: quiet_def)
  with c show ?thesis
    by simp
qed

text \<open>
  C4. When the timer signal finds the mode still START-UP and the command buffer as
  loaded, the handler sets the mode to IN-USE, sets the LED to flashing green and calls
  the factory-reset check script with the flag 0, the call that the source says must be
  made without causing a factory reset. These are its only system calls: it calls
  neither reboot nor shutdown nor the script with the flag 1. The buffer is as loaded as
  long as no call site of the script has run, that is as long as no short press has been
  released during start-up; the statement is about the handler in any such state, so it
  does not depend on the point of the main loop at which the signal arrives. As for the
  other mode changes: a step that changes the mode is the timer signal or a loop pass that
  handles a release of the button, and the mode that the set-up leaves depends on the
  result of \<open>stat\<close> only. So the timer signal is the only mode change that elapsed time
  causes without the button. The \<open>strcat\<close> of the flag writes its terminator one byte
  past the array (\<open>strcat_past_end_loaded\<close>); which byte that is depends on the layout
  of the globals and is no part of the statement.
\<close>

theorem C4_timer_expiry:
  "(state s = PB_STATE_START \<and>
    str_sys_call_check_factory_reset s = check_factory_reset_init \<longrightarrow>
      state (timer_handler sig s) = PB_STATE_INUSE \<and>
      out (timer_handler sig s) =
        out s @ [Printf ''Signal %d - Changes pb mode to in-use'' [sig],
                 System ''./set_led.sh 3'',
                 System ''/usr/local/bin/check-factory-reset.sh 0''] \<and>
      set (drop (length (out s)) (out (timer_handler sig s))) \<inter>
        {System ''reboot'', System ''shutdown -h now'',
         System ''/usr/local/bin/check-factory-reset.sh 1''} = {} \<and>
      timer_start (timer_handler sig s) = timer_start s) \<and>
   (step i u = Some u' \<and> state u' \<noteq> state u \<longrightarrow>
      (\<exists>sig'. i = Signal sig') \<or>
      (\<exists>evs clk. i = Loop_pass (Read_events evs) clk \<and>
         (\<exists>ec \<in> set evs. is_release (fst ec)))) \<and>
   (main_setup device st tenv init_prog = Inr v \<longrightarrow>
      (state v = PB_STATE_INUSE) = (st \<noteq> Stat_failure ENOENT))"
proof -
  have "state (timer_handler sig s) = PB_STATE_INUSE \<and>
      out (timer_handler sig s) =
        out s @ [Printf ''Signal %d - Changes pb mode to in-use'' [sig],
                 System ''./set_led.sh 3'',
                 System ''/usr/local/bin/check-factory-reset.sh 0''] \<and>
      set (drop (length (out s)) (out (timer_handler sig s))) \<inter>
        {System ''reboot'', System ''shutdown -h now'',
         System ''/usr/local/bin/check-factory-reset.sh 1''} = {} \<and>
      timer_start (timer_handler sig s) = timer_start s"
    if "state s = PB_STATE_START"
      and "str_sys_call_check_factory_reset s = check_factory_reset_init"
  proof -
    note h = timer_handler_loaded [OF that, of sig]
    have "set (drop (length (out s)) (out (timer_handler sig s))) \<inter>
        {System ''reboot'', System ''shutdown -h now'',
         System ''/usr/local/bin/check-factory-reset.sh 1''} = {}"
      unfolding h(2) by simp
    with h show ?thesis
      by blast
  qed
  then show ?thesis
    using step_mode_cause [of i u u'] main_setup_mode [of device st tenv v]
    by blast
qed

text \<open>
  The state that the set-up leaves when the marker file does not exist, and the timer
  signal in that state; the set-up when the marker file exists.
\<close>

theorem C4_timer_expiry_witness:
  "main True (Stat_failure ENOENT) Timer_ok [] =
     Inr (Some
       \<lparr>state = PB_STATE_START,
        str_sys_call_check_factory_reset = check_factory_reset_init,
        timer_start = \<lparr>tv_sec = 0, tv_nsec = 0\<rparr>,
        out = [System ''i2cset -f -y 0 0x20 0 0'', System ''mkdir -p /opt/monitors/'',
               Printf ''Start Push-Button Monitor'' [],
               Printf ''Start-Mode, press push-button for factory Reset'' [],
               System ''./set_led.sh 2'', Timer_settime 10 2]\<rparr>) \<and>
   (\<exists>u'. step (Signal 34)
       \<lparr>state = PB_STATE_START,
        str_sys_call_check_factory_reset = check_factory_reset_init,
        timer_start = \<lparr>tv_sec = 0, tv_nsec = 0\<rparr>,
        out = [System ''i2cset -f -y 0 0x20 0 0'', System ''mkdir -p /opt/monitors/'',
               Printf ''Start Push-Button Monitor'' [],
               Printf ''Start-Mode, press push-button for factory Reset'' [],
               System ''./set_led.sh 2'', Timer_settime 10 2]\<rparr> = Some u' \<and>
      state u' = PB_STATE_INUSE \<and>
      out u' =
        [System ''i2cset -f -y 0 0x20 0 0'', System ''mkdir -p /opt/monitors/'',
         Printf ''Start Push-Button Monitor'' [],
         Printf ''Start-Mode, press push-button for factory Reset'' [],
         System ''./set_led.sh 2'', Timer_settime 10 2,
         Printf ''Signal %d - Changes pb mode to in-use'' [34], System ''./set_led.sh 3'',
         System ''/usr/local/bin/check-factory-reset.sh 0'']) \<and>
   (\<exists>v. main_setup True Stat_success Timer_ok init_prog = Inr v \<and> state v = PB_STATE_INUSE)"
proof -
  let ?s = "\<lparr>state = PB_STATE_START,
        str_sys_call_check_factory_reset = check_factory_reset_init,
        timer_start = \<lparr>tv_sec = 0, tv_nsec = 0\<rparr>,
        out = [System ''i2cset -f -y 0 0x20 0 0'', System ''mkdir -p /opt/monitors/'',
               Printf ''Start Push-Button Monitor'' [],
               Printf ''Start-Mode, press push-button for factory Reset'' [],
               System ''./set_led.sh 2'', Timer_settime 10 2]\<rparr>"
  have m: "main True (Stat_failure ENOENT) Timer_ok [] = Inr (Some ?s)"
    by code_simp
  have "main_setup True Stat_success Timer_ok init_prog \<noteq> Inl 1"
    by (simp add: main_setup_def Let_def split_beta)
  then obtain v where v: "main_setup True Stat_success Timer_ok init_prog = Inr v"
    by (simp add: main_setup_def Let_def split_beta)
  note inst = C4_timer_expiry [where s = ?s and sig = 34 and i = "Signal 34" and u = ?s
      and u' = "timer_handler 34 ?s" and device = True and st = Stat_success
      and tenv = Timer_ok and v = v]
  have h: "state (timer_handler 34 ?s) = PB_STATE_INUSE \<and>
      out (timer_handler 34 ?s) =
        out ?s @ [Printf ''Signal %d - Changes pb mode to in-use'' [34],
                 System ''./set_led.sh 3'',
                 System ''/usr/local/bin/check-factory-reset.sh 0'']"
    using inst by simp
  have "state v = PB_STATE_INUSE"
    using inst v by simp
  with h m v show ?thesis
    by simp
qed

section \<open>C5: the marker file at start-up\<close>




section \<open>C6: a press while a press is open\<close>

lemma process_events_single_release:
  "is_release e \<Longrightarrow> process_events [(e, clk)] s = release_button clk s"
  by (cases "release_button clk s") (simp_all add: process_events_release del: process_events.simps(2))

text \<open>
  C6 as the specification states it fails: the press branch has no test for an open
  interval. In mode IN-USE, a press read at 100 s, a second press read at 103 s and a
  release read at 105 s are handled as a press of 2 s (reboot), not of 5 s, and nothing
  is logged for the second press.
\<close>

theorem C6_press_while_open_counterexample:
  "process_events
     [(\<lparr>ev_type = 1, ev_code = 256, ev_value = 1\<rparr>, Some \<lparr>tv_sec = 100, tv_nsec = 0\<rparr>),
      (\<lparr>ev_type = 1, ev_code = 256, ev_value = 1\<rparr>, Some \<lparr>tv_sec = 103, tv_nsec = 0\<rparr>),
      (\<lparr>ev_type = 1, ev_code = 256, ev_value = 0\<rparr>, Some \<lparr>tv_sec = 105, tv_nsec = 0\<rparr>)]
     \<lparr>state = PB_STATE_INUSE,
      str_sys_call_check_factory_reset = ''/usr/local/bin/check-factory-reset.sh 0'',
      timer_start = \<lparr>tv_sec = 0, tv_nsec = 0\<rparr>, out = []\<rparr> =
   Some \<lparr>state = PB_STATE_INUSE,
      str_sys_call_check_factory_reset = ''/usr/local/bin/check-factory-reset.sh 0'',
      timer_start = \<lparr>tv_sec = 0, tv_nsec = 0\<rparr>,
      out = [Printf ''Short Push-ButtonPress (less 5sec ) - reboot'' [], System ''reboot'',
             System ''./set_led.sh 3'']\<rparr>"
  by code_simp

text \<open>
  C6, amended. A press whose clock read succeeds overwrites the recorded start time with
  the new reading, whether or not a press is open, and outputs nothing; what follows does
  not depend on the start time recorded before, so the release is measured from the
  latest press.
\<close>

theorem C6_press_while_open:
  "(is_press e \<longrightarrow>
      process_events ((e, Some ts) # evs) s = process_events evs (s\<lparr>timer_start := ts\<rparr>) \<and>
      process_events ((e, Some ts) # evs) (s\<lparr>timer_start := t0\<rparr>) =
        process_events ((e, Some ts) # evs) s) \<and>
   (is_press e \<and> is_release e' \<longrightarrow>
      process_events [(e, Some ts), (e', clk)] (s\<lparr>timer_start := t0\<rparr>) =
        release_button clk (s\<lparr>timer_start := ts\<rparr>))"
proof -
  have overwrite: "process_events ((e, Some ts) # evs') u = process_events evs' (u\<lparr>timer_start := ts\<rparr>)"
    if "is_press e" for evs' u
    using that by (rule process_events_press)
  have "process_events ((e, Some ts) # evs) (s\<lparr>timer_start := t0\<rparr>) =
      process_events ((e, Some ts) # evs) s" if "is_press e"
    by (simp only: overwrite [OF that]) simp
  moreover have "process_events [(e, Some ts), (e', clk)] (s\<lparr>timer_start := t0\<rparr>) =
      release_button clk (s\<lparr>timer_start := ts\<rparr>)" if "is_press e" and "is_release e'"
  proof -
    have "process_events [(e, Some ts), (e', clk)] (s\<lparr>timer_start := t0\<rparr>) =
        process_events [(e', clk)] (s\<lparr>timer_start := t0, timer_start := ts\<rparr>)"
      using that(1) by (rule overwrite)
    also have "\<dots> = release_button clk (s\<lparr>timer_start := t0, timer_start := ts\<rparr>)"
      using that(2) by (rule process_events_single_release)
    finally show ?thesis
      by simp
  qed
  ultimately show ?thesis
    using overwrite [of evs s] by blast
qed

theorem C6_press_while_open_witness:
  "is_press \<lparr>ev_type = 1, ev_code = 256, ev_value = 1\<rparr> \<and>
   is_release \<lparr>ev_type = 1, ev_code = 256, ev_value = 0\<rparr> \<and>
   process_events
     [(\<lparr>ev_type = 1, ev_code = 256, ev_value = 1\<rparr>, Some \<lparr>tv_sec = 103, tv_nsec = 0\<rparr>),
      (\<lparr>ev_type = 1, ev_code = 256, ev_value = 0\<rparr>, Some \<lparr>tv_sec = 105, tv_nsec = 0\<rparr>)]
     (init_prog\<lparr>timer_start := \<lparr>tv_sec = 100, tv_nsec = 0\<rparr>\<rparr>) =
   release_button (Some \<lparr>tv_sec = 105, tv_nsec = 0\<rparr>)
     (init_prog\<lparr>timer_start := \<lparr>tv_sec = 103, tv_nsec = 0\<rparr>\<rparr>)"
proof -
  have p: "is_press \<lparr>ev_type = 1, ev_code = 256, ev_value = 1\<rparr>"
    and r: "is_release \<lparr>ev_type = 1, ev_code = 256, ev_value = 0\<rparr>"
    by (simp_all add: is_press_def is_release_def EV_KEY_def)
  show ?thesis
    using p r C6_press_while_open [of "\<lparr>ev_type = 1, ev_code = 256, ev_value = 1\<rparr>"
        "\<lparr>tv_sec = 103, tv_nsec = 0\<rparr>" "[]" init_prog "\<lparr>tv_sec = 100, tv_nsec = 0\<rparr>"
        "\<lparr>ev_type = 1, ev_code = 256, ev_value = 0\<rparr>" "Some \<lparr>tv_sec = 105, tv_nsec = 0\<rparr>"]
    by simp
qed

section \<open>C7: a release without an open press\<close>

lemma test_time_closed:
  "\<not> (tv_sec start > 0 \<or> tv_nsec start > 0) \<Longrightarrow> test_time start clk s = (0, s)"
  by (simp add: test_time_def)

lemma release_button_closed:
  assumes "\<not> (tv_sec (timer_start s) > 0 \<or> tv_nsec (timer_start s) > 0)"
  shows "release_button clk s = Some (s\<lparr>out := out s @ [Printf ''Invalid Time'' []]\<rparr>)"
  using test_time_closed [OF assms] by (simp add: release_button_def emit_def)

lemma release_button_clock_fails:
  assumes "tv_sec (timer_start s) > 0 \<or> tv_nsec (timer_start s) > 0"
  shows "release_button None s =
     Some (s\<lparr>out := out s @ [Perror ''clock gettime'', Printf ''Invalid Time'' []]\<rparr>)"
  using assms by (simp add: release_button_def test_time_def emit_def)

lemma main_loop_body_release_closed:
  assumes c: "\<not> (tv_sec (timer_start s) > 0 \<or> tv_nsec (timer_start s) > 0)"
    and e: "is_release e"
  shows "main_loop_body (Read_events [(e, clk)]) clk' s =
     Some (s\<lparr>out := out s @ [Printf ''Invalid Time'' []]\<rparr>)"
proof -
  let ?u = "s\<lparr>out := out s @ [Printf ''Invalid Time'' []]\<rparr>"
  have "process_events [(e, clk)] s = Some ?u"
    using e release_button_closed [OF c] by (simp only: process_events_single_release)
  moreover have "test_time (timer_start ?u) clk' ?u = (0, ?u)"
    using c by (intro test_time_closed) simp
  ultimately show ?thesis
    by (simp add: main_loop_body_def del: process_events.simps)
qed

text \<open>
  C7 as the specification states it fails in its last part: a release that has an open
  press dispatches nothing when the clock reading at the release equals the reading at
  the press. Here both events arrive in one read, in mode IN-USE; the release is reported
  as invalid, no action is dispatched and the press stays open.
\<close>

theorem C7_release_without_press_counterexample:
  "main True (Stat_failure ENOENT) Timer_ok
     [Signal 34,
      Loop_pass (Read_events
        [(\<lparr>ev_type = 1, ev_code = 256, ev_value = 1\<rparr>, Some \<lparr>tv_sec = 100, tv_nsec = 0\<rparr>),
         (\<lparr>ev_type = 1, ev_code = 256, ev_value = 0\<rparr>, Some \<lparr>tv_sec = 100, tv_nsec = 0\<rparr>)])
        (Some \<lparr>tv_sec = 100, tv_nsec = 0\<rparr>)] =
   Inr (Some
     \<lparr>state = PB_STATE_INUSE,
      str_sys_call_check_factory_reset = ''/usr/local/bin/check-factory-reset.sh 0'',
      timer_start = \<lparr>tv_sec = 100, tv_nsec = 0\<rparr>,
      out = [System ''i2cset -f -y 0 0x20 0 0'', System ''mkdir -p /opt/monitors/'',
             Printf ''Start Push-Button Monitor'' [],
             Printf ''Start-Mode, press push-button for factory Reset'' [],
             System ''./set_led.sh 2'', Timer_settime 10 2,
             Printf ''Signal %d - Changes pb mode to in-use'' [34],
             System ''./set_led.sh 3'',
             System ''/usr/local/bin/check-factory-reset.sh 0'',
             Printf ''Invalid Time'' []]\<rparr>)"
  by code_simp

text \<open>
  C7, amended. A release that finds no press open (the start time has no positive
  component) only prints \<open>Invalid Time\<close>: no action is dispatched, mode, command buffer
  and start time are unchanged, and the loop pass ends normally. A release that finds a
  press open and reads the clock later than the press runs the dispatcher exactly once,
  on the whole seconds between the two readings, then closes the press and sets the LED.
  A release whose clock read fails is reported as invalid as well.
\<close>

theorem C7_release_without_press:
  "(\<not> (tv_sec (timer_start s) > 0 \<or> tv_nsec (timer_start s) > 0) \<longrightarrow>
      release_button clk s = Some (s\<lparr>out := out s @ [Printf ''Invalid Time'' []]\<rparr>)) \<and>
   (\<not> (tv_sec (timer_start s) > 0 \<or> tv_nsec (timer_start s) > 0) \<and> is_release e \<longrightarrow>
      main_loop_body (Read_events [(e, clk)]) clk' s =
        Some (s\<lparr>out := out s @ [Printf ''Invalid Time'' []]\<rparr>)) \<and>
   ((tv_sec (timer_start s) > 0 \<or> tv_nsec (timer_start s) > 0) \<and>
    0 \<le> tv_nsec (timer_start s) \<and> tv_nsec (timer_start s) < 1000000000 \<and>
    0 \<le> tv_nsec stop \<and> tv_nsec stop < 1000000000 \<and>
    tv_sec (timer_start s) * 1000000000 + tv_nsec (timer_start s)
      < tv_sec stop * 1000000000 + tv_nsec stop \<longrightarrow>
      release_button (Some stop) s =
        Some (emit (System ''./set_led.sh 3'')
          ((process_end_time
             (nat (((tv_sec stop * 1000000000 + tv_nsec stop) -
                (tv_sec (timer_start s) * 1000000000 + tv_nsec (timer_start s)))
                  div 1000000000)) s)
           \<lparr>timer_start := \<lparr>tv_sec = 0, tv_nsec = 0\<rparr>\<rparr>))) \<and>
   (tv_sec (timer_start s) > 0 \<or> tv_nsec (timer_start s) > 0 \<longrightarrow>
      release_button None s =
        Some (s\<lparr>out := out s @ [Perror ''clock gettime'', Printf ''Invalid Time'' []]\<rparr>))"
  using release_button_closed [of s clk] main_loop_body_release_closed [of s e clk clk']
    release_button_later [of s stop] release_button_clock_fails [of s]
  by blast

theorem C7_release_without_press_witness:
  "release_button (Some \<lparr>tv_sec = 50, tv_nsec = 0\<rparr>) init_prog =
     Some (init_prog\<lparr>out := [Printf ''Invalid Time'' []]\<rparr>) \<and>
   main_loop_body
     (Read_events [(\<lparr>ev_type = 1, ev_code = 256, ev_value = 0\<rparr>, Some \<lparr>tv_sec = 50, tv_nsec = 0\<rparr>)])
     (Some \<lparr>tv_sec = 50, tv_nsec = 7\<rparr>) init_prog =
     Some (init_prog\<lparr>out := [Printf ''Invalid Time'' []]\<rparr>) \<and>
   release_button (Some \<lparr>tv_sec = 112, tv_nsec = 300\<rparr>)
     (init_prog\<lparr>timer_start := \<lparr>tv_sec = 100, tv_nsec = 900\<rparr>\<rparr>) =
     Some (emit (System ''./set_led.sh 3'')
       ((process_end_time 11 (init_prog\<lparr>timer_start := \<lparr>tv_sec = 100, tv_nsec = 900\<rparr>\<rparr>))
        \<lparr>timer_start := \<lparr>tv_sec = 0, tv_nsec = 0\<rparr>\<rparr>)) \<and>
   release_button None (init_prog\<lparr>timer_start := \<lparr>tv_sec = 100, tv_nsec = 900\<rparr>\<rparr>) =
     Some (init_prog\<lparr>timer_start := \<lparr>tv_sec = 100, tv_nsec = 900\<rparr>,
       out := [Perror ''clock gettime'', Printf ''Invalid Time'' []]\<rparr>)"
proof -
  let ?e = "\<lparr>ev_type = 1, ev_code = 256, ev_value = 0\<rparr>"
  let ?h = "init_prog\<lparr>timer_start := \<lparr>tv_sec = 100, tv_nsec = 900\<rparr>\<rparr>"
  have r: "is_release ?e"
    by (simp add: is_release_def EV_KEY_def)
  have c: "timer_start init_prog = \<lparr>tv_sec = 0, tv_nsec = 0\<rparr>" "out init_prog = []"
    by (simp_all add: init_prog_def)
  have "release_button (Some \<lparr>tv_sec = 50, tv_nsec = 0\<rparr>) init_prog =
      Some (init_prog\<lparr>out := [Printf ''Invalid Time'' []]\<rparr>) \<and>
    main_loop_body (Read_events [(?e, Some \<lparr>tv_sec = 50, tv_nsec = 0\<rparr>)])
      (Some \<lparr>tv_sec = 50, tv_nsec = 7\<rparr>) init_prog =
      Some (init_prog\<lparr>out := [Printf ''Invalid Time'' []]\<rparr>)"
    using C7_release_without_press [of init_prog "Some \<lparr>tv_sec = 50, tv_nsec = 0\<rparr>" ?e
        "Some \<lparr>tv_sec = 50, tv_nsec = 7\<rparr>" undefined] r c
    by simp
  moreover have "release_button (Some \<lparr>tv_sec = 112, tv_nsec = 300\<rparr>) ?h =
      Some (emit (System ''./set_led.sh 3'')
        ((process_end_time 11 ?h)\<lparr>timer_start := \<lparr>tv_sec = 0, tv_nsec = 0\<rparr>\<rparr>)) \<and>
    release_button None ?h =
      Some (?h\<lparr>out := out ?h @ [Perror ''clock gettime'', Printf ''Invalid Time'' []]\<rparr>)"
    using C7_release_without_press [of ?h undefined undefined undefined
        "\<lparr>tv_sec = 112, tv_nsec = 300\<rparr>"]
    by simp
  ultimately show ?thesis
    using c by simp
qed

section \<open>C8: the mode never goes back\<close>

text \<open>
  C8. The timer handler, the dispatcher and the start-up check each leave the mode as it
  is or set it to IN-USE, and \<open>process_time\<close> never changes it. So does every step of the
  program (a timer signal or a pass of the main loop) and every run of such steps, from
  any state: once the mode is IN-USE it stays IN-USE, along every continuation of every
  run of \<open>main\<close>.
\<close>

theorem C8_mode_monotone:
  "(state (timer_handler sig s) = state s \<or> state (timer_handler sig s) = PB_STATE_INUSE) \<and>
   (state (process_end_time seconds s) = state s \<or>
      state (process_end_time seconds s) = PB_STATE_INUSE) \<and>
   (state (snd (check_inuse_factory_reset st s)) = state s \<or>
      state (snd (check_inuse_factory_reset st s)) = PB_STATE_INUSE) \<and>
   state (process_time seconds s) = state s \<and>
   (step i s = Some s' \<longrightarrow> state s' = state s \<or> state s' = PB_STATE_INUSE) \<and>
   (run inputs s = Some s' \<longrightarrow> state s' = state s \<or> state s' = PB_STATE_INUSE) \<and>
   (main device st tenv inputs = Inr (Some u) \<and> state u = PB_STATE_INUSE \<and>
    main device st tenv (inputs @ rest) = Inr (Some u') \<longrightarrow> state u' = PB_STATE_INUSE)"
proof -
  have "state u' = PB_STATE_INUSE"
    if a: "main device st tenv inputs = Inr (Some u)" and b: "state u = PB_STATE_INUSE"
      and c: "main device st tenv (inputs @ rest) = Inr (Some u')"
  proof -
    obtain s0 where s0: "main_setup device st tenv init_prog = Inr s0"
      "run inputs s0 = Some u" "run (inputs @ rest) s0 = Some u'"
      using a c by (auto simp: main_def split: sum.splits)
    then have "run rest u = Some u'"
      by (simp add: run_append)
    from run_mode [OF this] b show ?thesis
      by auto
  qed
  then show ?thesis
    using timer_handler_mode [of sig s] process_end_time_mode [of seconds s]
      check_inuse_factory_reset_mode [of st s] process_time_state [of seconds s]
      step_mode [of i s s'] run_mode [of inputs s s']
    by blast
qed

theorem C8_mode_monotone_witness:
  "main True (Stat_failure ENOENT) Timer_ok [Signal 34] =
     Inr (Some
       \<lparr>state = PB_STATE_INUSE,
        str_sys_call_check_factory_reset = ''/usr/local/bin/check-factory-reset.sh 0'',
        timer_start = \<lparr>tv_sec = 0, tv_nsec = 0\<rparr>,
        out = [System ''i2cset -f -y 0 0x20 0 0'', System ''mkdir -p /opt/monitors/'',
               Printf ''Start Push-Button Monitor'' [],
               Printf ''Start-Mode, press push-button for factory Reset'' [],
               System ''./set_led.sh 2'', Timer_settime 10 2,
               Printf ''Signal %d - Changes pb mode to in-use'' [34],
               System ''./set_led.sh 3'',
               System ''/usr/local/bin/check-factory-reset.sh 0'']\<rparr>) \<and>
   (\<exists>u'. main True (Stat_failure ENOENT) Timer_ok
       ([Signal 34] @
        [Loop_pass (Read_events
           [(\<lparr>ev_type = 1, ev_code = 256, ev_value = 1\<rparr>, Some \<lparr>tv_sec = 100, tv_nsec = 0\<rparr>)])
           (Some \<lparr>tv_sec = 100, tv_nsec = 40\<rparr>),
         Loop_pass (Read_events
           [(\<lparr>ev_type = 1, ev_code = 256, ev_value = 0\<rparr>, Some \<lparr>tv_sec = 107, tv_nsec = 0\<rparr>)])
           (Some \<lparr>tv_sec = 107, tv_nsec = 40\<rparr>),
         Signal 34]) = Inr (Some u') \<and>
      state u' = PB_STATE_INUSE)"
proof -
  let ?u = "\<lparr>state = PB_STATE_INUSE,
        str_sys_call_check_factory_reset = ''/usr/local/bin/check-factory-reset.sh 0'',
        timer_start = \<lparr>tv_sec = 0, tv_nsec = 0\<rparr>,
        out = [System ''i2cset -f -y 0 0x20 0 0'', System ''mkdir -p /opt/monitors/'',
               Printf ''Start Push-Button Monitor'' [],
               Printf ''Start-Mode, press push-button for factory Reset'' [],
               System ''./set_led.sh 2'', Timer_settime 10 2,
               Printf ''Signal %d - Changes pb mode to in-use'' [34],
               System ''./set_led.sh 3'',
               System ''/usr/local/bin/check-factory-reset.sh 0'']\<rparr>"
  let ?more = "[Loop_pass (Read_events
           [(\<lparr>ev_type = 1, ev_code = 256, ev_value = 1\<rparr>, Some \<lparr>tv_sec = 100, tv_nsec = 0\<rparr>)])
           (Some \<lparr>tv_sec = 100, tv_nsec = 40\<rparr>),
         Loop_pass (Read_events
           [(\<lparr>ev_type = 1, ev_code = 256, ev_value = 0\<rparr>, Some \<lparr>tv_sec = 107, tv_nsec = 0\<rparr>)])
           (Some \<lparr>tv_sec = 107, tv_nsec = 40\<rparr>),
         Signal 34]"
  have a: "main True (Stat_failure ENOENT) Timer_ok [Signal 34] = Inr (Some ?u)"
    by code_simp
  have "run ?more ?u \<noteq> None"
    by code_simp
  then obtain u' where "run ?more ?u = Some u'"
    by blast
  then have c: "main True (Stat_failure ENOENT) Timer_ok ([Signal 34] @ ?more) = Inr (Some u')"
    using a by (simp add: main_def run_append split: sum.splits)
  have "state u' = PB_STATE_INUSE"
    using C8_mode_monotone [where device = True and st = "Stat_failure ENOENT"
        and tenv = Timer_ok and inputs = "[Signal 34]" and u = ?u and rest = ?more and u' = u'] a c
    by simp
  with a c show ?thesis
    by blast
qed

section \<open>C10: the start time zero as the mark of no open press\<close>

text \<open>
  C10 as the specification states it fails in its second half: with a press read at
  100.000000250 s, a start time with positive components, a release whose clock reading
  is the same is reported as invalid, dispatches nothing and does not reset the start
  time, exactly as if no press had been open.
\<close>

theorem C10_zero_start_counterexample:
  "process_events
     [(\<lparr>ev_type = 1, ev_code = 256, ev_value = 1\<rparr>, Some \<lparr>tv_sec = 100, tv_nsec = 250\<rparr>),
      (\<lparr>ev_type = 1, ev_code = 256, ev_value = 0\<rparr>, Some \<lparr>tv_sec = 100, tv_nsec = 250\<rparr>)]
     \<lparr>state = PB_STATE_INUSE,
      str_sys_call_check_factory_reset = ''/usr/local/bin/check-factory-reset.sh 0'',
      timer_start = \<lparr>tv_sec = 0, tv_nsec = 0\<rparr>, out = []\<rparr> =
   Some \<lparr>state = PB_STATE_INUSE,
      str_sys_call_check_factory_reset = ''/usr/local/bin/check-factory-reset.sh 0'',
      timer_start = \<lparr>tv_sec = 100, tv_nsec = 250\<rparr>, out = [Printf ''Invalid Time'' []]\<rparr>"
  by code_simp

text \<open>
  C10, amended. A press whose clock reading is 0 s and 0 ns leaves the start time at the
  value that means no press is open: the sample measures nothing and the following
  release is reported as invalid and dispatches nothing. A press whose clock reading has
  a positive seconds or nanoseconds part is seen as open by every later clock reading:
  the sample measures a positive time and hands its whole seconds to \<open>process_time\<close>,
  leaving the start time alone, and the release runs the dispatcher on the whole seconds
  since that press and then resets the start time to 0 s and 0 ns.
\<close>

theorem C10_zero_start:
  "(is_press e \<and> is_release e' \<longrightarrow>
      process_events [(e, Some \<lparr>tv_sec = 0, tv_nsec = 0\<rparr>), (e', clk)] s =
        Some (s\<lparr>timer_start := \<lparr>tv_sec = 0, tv_nsec = 0\<rparr>,
                out := out s @ [Printf ''Invalid Time'' []]\<rparr>) \<and>
      test_time \<lparr>tv_sec = 0, tv_nsec = 0\<rparr> clk s = (0, s)) \<and>
   (is_press e \<and> is_release e' \<and> (tv_sec ts > 0 \<or> tv_nsec ts > 0) \<and>
    0 \<le> tv_nsec ts \<and> tv_nsec ts < 1000000000 \<and>
    0 \<le> tv_nsec now \<and> tv_nsec now < 1000000000 \<and>
    tv_sec ts * 1000000000 + tv_nsec ts < tv_sec now * 1000000000 + tv_nsec now \<longrightarrow>
      (\<exists>t. test_time ts (Some now) s = (t, s) \<and> 0 < t) \<and>
      main_loop_body (Read_short False) (Some now) (s\<lparr>timer_start := ts\<rparr>) =
        Some (process_time
          (nat (((tv_sec now * 1000000000 + tv_nsec now) -
             (tv_sec ts * 1000000000 + tv_nsec ts)) div 1000000000))
          (s\<lparr>timer_start := ts\<rparr>)) \<and>
      timer_start (process_time
          (nat (((tv_sec now * 1000000000 + tv_nsec now) -
             (tv_sec ts * 1000000000 + tv_nsec ts)) div 1000000000))
          (s\<lparr>timer_start := ts\<rparr>)) = ts \<and>
      process_events [(e, Some ts), (e', Some now)] s =
        Some (emit (System ''./set_led.sh 3'')
          ((process_end_time
             (nat (((tv_sec now * 1000000000 + tv_nsec now) -
                (tv_sec ts * 1000000000 + tv_nsec ts)) div 1000000000))
             (s\<lparr>timer_start := ts\<rparr>))
           \<lparr>timer_start := \<lparr>tv_sec = 0, tv_nsec = 0\<rparr>\<rparr>)))"
proof -
  let ?z = "\<lparr>tv_sec = 0, tv_nsec = 0\<rparr>"
  have pr: "process_events [(e, Some t1), (e', c)] s = release_button c (s\<lparr>timer_start := t1\<rparr>)"
    if "is_press e" and "is_release e'" for t1 c
    using that
    by (simp add: process_events_press process_events_single_release del: process_events.simps)
  have a: "process_events [(e, Some ?z), (e', clk)] s =
        Some (s\<lparr>timer_start := ?z, out := out s @ [Printf ''Invalid Time'' []]\<rparr>)"
    if "is_press e" and "is_release e'"
    using pr [OF that, of ?z clk] release_button_closed [of "s\<lparr>timer_start := ?z\<rparr>" clk]
    by simp
  have z: "test_time ?z clk s = (0, s)"
    by (rule test_time_closed) simp
  have b: "(\<exists>t. test_time ts (Some now) s = (t, s) \<and> 0 < t) \<and>
      main_loop_body (Read_short False) (Some now) (s\<lparr>timer_start := ts\<rparr>) =
        Some (process_time
          (nat (((tv_sec now * 1000000000 + tv_nsec now) -
             (tv_sec ts * 1000000000 + tv_nsec ts)) div 1000000000))
          (s\<lparr>timer_start := ts\<rparr>)) \<and>
      process_events [(e, Some ts), (e', Some now)] s =
        Some (emit (System ''./set_led.sh 3'')
          ((process_end_time
             (nat (((tv_sec now * 1000000000 + tv_nsec now) -
                (tv_sec ts * 1000000000 + tv_nsec ts)) div 1000000000))
             (s\<lparr>timer_start := ts\<rparr>))
           \<lparr>timer_start := ?z\<rparr>))"
    if p: "is_press e" and r: "is_release e'" and op: "tv_sec ts > 0 \<or> tv_nsec ts > 0"
      and rg: "0 \<le> tv_nsec ts" "tv_nsec ts < 1000000000" "0 \<le> tv_nsec now" "tv_nsec now < 1000000000"
      and later: "tv_sec ts * 1000000000 + tv_nsec ts < tv_sec now * 1000000000 + tv_nsec now"
  proof -
    have "\<exists>t. test_time ts (Some now) s = (t, s) \<and> 0 < t"
      using test_time_later [OF op rg later, of s] by blast
    moreover have "main_loop_body (Read_short False) (Some now) (s\<lparr>timer_start := ts\<rparr>) =
        Some (process_time
          (nat (((tv_sec now * 1000000000 + tv_nsec now) -
             (tv_sec ts * 1000000000 + tv_nsec ts)) div 1000000000))
          (s\<lparr>timer_start := ts\<rparr>))"
      using main_loop_body_sample [of "s\<lparr>timer_start := ts\<rparr>" now] op rg later by simp
    moreover have "release_button (Some now) (s\<lparr>timer_start := ts\<rparr>) =
        Some (emit (System ''./set_led.sh 3'')
          ((process_end_time
             (nat (((tv_sec now * 1000000000 + tv_nsec now) -
                (tv_sec ts * 1000000000 + tv_nsec ts)) div 1000000000))
             (s\<lparr>timer_start := ts\<rparr>))
           \<lparr>timer_start := ?z\<rparr>))"
      using release_button_later [of "s\<lparr>timer_start := ts\<rparr>" now] op rg later by simp
    ultimately show ?thesis
      using pr [OF p r, of ts "Some now"] by simp
  qed
  have "timer_start (process_time n (s\<lparr>timer_start := ts\<rparr>)) = ts" for n
    by simp
  with a z b show ?thesis
    by blast
qed

theorem C10_zero_start_witness:
  "process_events
     [(\<lparr>ev_type = 1, ev_code = 256, ev_value = 1\<rparr>, Some \<lparr>tv_sec = 0, tv_nsec = 0\<rparr>),
      (\<lparr>ev_type = 1, ev_code = 256, ev_value = 0\<rparr>, Some \<lparr>tv_sec = 8, tv_nsec = 0\<rparr>)] init_prog =
     Some (init_prog\<lparr>out := [Printf ''Invalid Time'' []]\<rparr>) \<and>
   main_loop_body (Read_short False) (Some \<lparr>tv_sec = 8, tv_nsec = 0\<rparr>)
       (init_prog\<lparr>timer_start := \<lparr>tv_sec = 0, tv_nsec = 1\<rparr>\<rparr>) =
     Some (process_time 7 (init_prog\<lparr>timer_start := \<lparr>tv_sec = 0, tv_nsec = 1\<rparr>\<rparr>)) \<and>
   process_events
     [(\<lparr>ev_type = 1, ev_code = 256, ev_value = 1\<rparr>, Some \<lparr>tv_sec = 0, tv_nsec = 1\<rparr>),
      (\<lparr>ev_type = 1, ev_code = 256, ev_value = 0\<rparr>, Some \<lparr>tv_sec = 8, tv_nsec = 0\<rparr>)] init_prog =
     Some (emit (System ''./set_led.sh 3'')
       ((process_end_time 7 (init_prog\<lparr>timer_start := \<lparr>tv_sec = 0, tv_nsec = 1\<rparr>\<rparr>))
        \<lparr>timer_start := \<lparr>tv_sec = 0, tv_nsec = 0\<rparr>\<rparr>))"
proof -
  let ?p = "\<lparr>ev_type = 1, ev_code = 256, ev_value = 1\<rparr>"
  let ?r = "\<lparr>ev_type = 1, ev_code = 256, ev_value = 0\<rparr>"
  have e: "is_press ?p" "is_release ?r"
    by (simp_all add: is_press_def is_release_def EV_KEY_def)
  have i: "timer_start init_prog = \<lparr>tv_sec = 0, tv_nsec = 0\<rparr>" "out init_prog = []"
    by (simp_all add: init_prog_def)
  note inst = C10_zero_start [of ?p ?r "Some \<lparr>tv_sec = 8, tv_nsec = 0\<rparr>" init_prog
      "\<lparr>tv_sec = 0, tv_nsec = 1\<rparr>" "\<lparr>tv_sec = 8, tv_nsec = 0\<rparr>"]
  have "process_events [(?p, Some \<lparr>tv_sec = 0, tv_nsec = 0\<rparr>), (?r, Some \<lparr>tv_sec = 8, tv_nsec = 0\<rparr>)]
      init_prog = Some (init_prog\<lparr>timer_start := \<lparr>tv_sec = 0, tv_nsec = 0\<rparr>,
        out := out init_prog @ [Printf ''Invalid Time'' []]\<rparr>)"
    using inst e by blast
  then have "process_events [(?p, Some \<lparr>tv_sec = 0, tv_nsec = 0\<rparr>), (?r, Some \<lparr>tv_sec = 8, tv_nsec = 0\<rparr>)]
      init_prog = Some (init_prog\<lparr>out := [Printf ''Invalid Time'' []]\<rparr>)"
    by (simp add: init_prog_def)
  moreover have "main_loop_body (Read_short False) (Some \<lparr>tv_sec = 8, tv_nsec = 0\<rparr>)
       (init_prog\<lparr>timer_start := \<lparr>tv_sec = 0, tv_nsec = 1\<rparr>\<rparr>) =
     Some (process_time 7 (init_prog\<lparr>timer_start := \<lparr>tv_sec = 0, tv_nsec = 1\<rparr>\<rparr>)) \<and>
   process_events [(?p, Some \<lparr>tv_sec = 0, tv_nsec = 1\<rparr>), (?r, Some \<lparr>tv_sec = 8, tv_nsec = 0\<rparr>)]
      init_prog =
     Some (emit (System ''./set_led.sh 3'')
       ((process_end_time 7 (init_prog\<lparr>timer_start := \<lparr>tv_sec = 0, tv_nsec = 1\<rparr>\<rparr>))
        \<lparr>timer_start := \<lparr>tv_sec = 0, tv_nsec = 0\<rparr>\<rparr>))"
    using inst e by simp
  ultimately show ?thesis
    by blast
qed

end
